theory Spec2Isabelle
  imports Complex_Main
begin

unbundle bit_operations_syntax

section \<open>The scene description (USD side)\<close>

text \<open>
  The reader consumes a USD stage through the USD library. The stage is modelled as the
  data the reader asks for: a tree of prims below the pseudo-root, the prototype prims
  (reachable by path only), and the shutter of the render camera named by \<open>/options\<close>.
  Attribute values are taken at the reader's frame.
\<close>

type_synonym node = nat

text \<open>
  A finite binary floating-point number, a \<open>float\<close> or a \<open>double\<close>: its mantissa and
  its exponent, with the value \<open>mantissa * 2 ^ exponent\<close>. A float converts to a double
  without change, and two numbers compare as their values do. Arithmetic that rounds is
  not modelled: the operations the reader uses are parameters.
\<close>
datatype binary = Binary int int

type_synonym float = binary

type_synonym double = binary

fun valueOf :: "binary \<Rightarrow> real" where
  "valueOf (Binary m e) =
     (if 0 \<le> e then real_of_int m * 2 ^ nat e else real_of_int m / 2 ^ nat (- e))"

definition isLess :: "binary \<Rightarrow> binary \<Rightarrow> bool" where
  "isLess a b = (valueOf a < valueOf b)"

text \<open>A primvar: its name and the path of the prim that authors it.\<close>
type_synonym primvar = "string \<times> string"

record primInfo =
  path :: string
  typeName :: string
  instanceable :: bool
  active :: bool
  isImageable :: bool
  visibilityAttr :: "string option"
  purposeAttr :: "string option"
  authoredPrimvars :: "string list"
  primvarsWithInheritance :: "primvar list"
  isXformable :: bool
  xformTimeVarying :: bool
  xformSamples :: "double list"
  prototype :: "string option"
  isPrototype :: bool

datatype prim = Prim primInfo "prim list"

fun info :: "prim \<Rightarrow> primInfo" where
  "info (Prim i cs) = i"

fun children :: "prim \<Rightarrow> prim list" where
  "children (Prim i cs) = cs"

record camera =
  isCamera :: bool
  shutterOpen :: "float option"
  shutterClose :: "float option"

record stage =
  pseudoRoot :: prim
  prototypes :: "prim list"
  optionsCamera :: "camera option"

text \<open>
  \<open>chain p t\<close>: the prim at path \<open>p\<close> in the tree \<open>t\<close> followed by its ancestors up
  to the root of \<open>t\<close>; empty when no prim has that path.
\<close>
fun chain :: "string \<Rightarrow> prim \<Rightarrow> prim list" where
  "chain p (Prim i cs) =
     (if path i = p then [Prim i cs]
      else (case filter (\<lambda>l. l \<noteq> []) (map (chain p) cs) of
              [] \<Rightarrow> []
            | ch # _ \<Rightarrow> ch @ [Prim i cs]))"

definition stageChain :: "stage \<Rightarrow> string \<Rightarrow> prim list" where
  "stageChain s p =
     (case filter (\<lambda>l. l \<noteq> []) (map (chain p) (pseudoRoot s # prototypes s)) of
        [] \<Rightarrow> []
      | ch # _ \<Rightarrow> ch)"

text \<open>\<open>UsdStage::GetPrimAtPath\<close>: \<open>None\<close> is the invalid prim.\<close>
definition GetPrimAtPath :: "stage \<Rightarrow> string \<Rightarrow> prim option" where
  "GetPrimAtPath s p = (case stageChain s p of [] \<Rightarrow> None | x # _ \<Rightarrow> Some x)"

text \<open>The ancestors of a prim, parent first (\<open>prim.GetParent()\<close> repeated).\<close>
definition ancestors :: "stage \<Rightarrow> string \<Rightarrow> prim list" where
  "ancestors s p = tl (stageChain s p)"

text \<open>
  \<open>UsdPrimRange::PreAndPostVisit\<close>: every prim of the subtree is yielded twice, before
  and after its descendants; the flag is \<open>IsPostVisit\<close>.
\<close>
fun preAndPost :: "prim \<Rightarrow> (prim \<times> bool) list" where
  "preAndPost (Prim i cs) =
     (Prim i cs, False) # concat (map preAndPost cs) @ [(Prim i cs, True)]"

text \<open>
  The iterator is the list of visits still to come, the current one first. Incrementing
  drops the current visit; after \<open>PruneChildren\<close> on a pre-visit the increment behaves as
  if the prim had no children, so it lands on the post-visit of the same prim.
\<close>
definition increment :: "bool \<Rightarrow> (prim \<times> bool) list \<Rightarrow> (prim \<times> bool) list" where
  "increment pruneChildrenFlag it =
     (case it of
        [] \<Rightarrow> []
      | (p, post) # rest \<Rightarrow>
          if pruneChildrenFlag \<and> \<not> post
          then drop (length (concat (map preAndPost (children p)))) rest
          else rest)"

text \<open>
  \<open>UsdGeomPrimvarsAPI::FindIncrementallyInheritablePrimvars\<close>: empty when the prim
  authors no inheritable primvar (the children inherit what the prim inherited), otherwise
  the prim's own primvars followed by the inherited ones they do not override.
\<close>
definition FindIncrementallyInheritablePrimvars :: "primInfo \<Rightarrow> primvar list \<Rightarrow> primvar list" where
  "FindIncrementallyInheritablePrimvars i inherited =
     (if authoredPrimvars i = [] then []
      else map (\<lambda>n. (n, path i)) (authoredPrimvars i)
           @ filter (\<lambda>pv. fst pv \<notin> set (authoredPrimvars i)) inherited)"

section \<open>The Arnold side\<close>

text \<open>
  The Arnold universe is seen through the calls made to its API, kept in order in a log.
  A matrix is the transform of a prim at a time; an array holds nodes or matrices.
\<close>

datatype AtMatrix = XformAt string float bool

datatype AtArray = NodeArray "node list" | MatrixArray "AtMatrix list" | StrArray "string list"

datatype lockId = CreateNodeLock | AddConnectionLock | AddNodeNameLock | ReaderLock | GlobalReaderMutex

datatype ai_call =
    AiNode node string string "node option"
  | AiNodeDestroy node
  | AiNodeSetArray node string AtArray
  | AiNodeSetPtr node string node
  | AiNodeSetFlt node string float
  | AiNodeSetStr node string string
  | AiNodeSetUInt node string nat
  | AiNodeSetByte node string nat
  | AiNodeSetBool node string bool
  | AiNodeSetRGB node string float float float
  | AiNodeLink node string node
  | AiNodeLinkOutput node string node string
  | AiNodeUnlink node string
  | AiCritSecEnter lockId
  | AiCritSecLeave lockId
  | AiMsgError string
  | AiMsgWarning string
  | AiMsgInfo string

fun createdHandle :: "ai_call \<Rightarrow> node list" where
  "createdHandle (AiNode n ty nm par) = [n]"
| "createdHandle _ = []"

text \<open>A handle no earlier \<open>AiNode\<close> call returned.\<close>
definition freshNode :: "ai_call list \<Rightarrow> node" where
  "freshNode calls = Suc (fold max (concat (map createdHandle calls)) 0)"

fun isDestroyed :: "ai_call list \<Rightarrow> node \<Rightarrow> bool" where
  "isDestroyed [] n = False"
| "isDestroyed (c # cs) n = (c = AiNodeDestroy n \<or> isDestroyed cs n)"

fun namedNodes :: "string \<Rightarrow> ai_call \<Rightarrow> node list" where
  "namedNodes name (AiNode n ty nm par) = (if nm = name then [n] else [])"
| "namedNodes name _ = []"

text \<open>\<open>AiNodeLookUpByName\<close>: a live node created under that name, if any.\<close>
definition AiNodeLookUpByName :: "ai_call list \<Rightarrow> string \<Rightarrow> node option" where
  "AiNodeLookUpByName calls name =
     (case filter (\<lambda>n. \<not> isDestroyed calls n) (concat (map (namedNodes name) calls)) of
        [] \<Rightarrow> None
      | n # _ \<Rightarrow> Some n)"

fun parentOf :: "node \<Rightarrow> ai_call \<Rightarrow> node list" where
  "parentOf n (AiNode m ty nm (Some par)) = (if m = n then [par] else [])"
| "parentOf n _ = []"

definition AiNodeGetParent :: "ai_call list \<Rightarrow> node \<Rightarrow> node option" where
  "AiNodeGetParent calls n = (case concat (map (parentOf n) calls) of [] \<Rightarrow> None | p # _ \<Rightarrow> Some p)"

text \<open>Node-entry type masks of the Arnold SDK.\<close>
definition AI_NODE_CAMERA :: int where "AI_NODE_CAMERA = 0x0002"
definition AI_NODE_LIGHT :: int where "AI_NODE_LIGHT = 0x0004"
definition AI_NODE_SHAPE :: int where "AI_NODE_SHAPE = 0x0008"
definition AI_NODE_SHADER :: int where "AI_NODE_SHADER = 0x0010"
definition AI_NODE_OPERATOR :: int where "AI_NODE_OPERATOR = 0x1000"
definition AI_NODE_ALL :: int where "AI_NODE_ALL = 0xFFFF"
definition AI_RAY_ALL :: nat where "AI_RAY_ALL = 0xFF"

section \<open>The reader and its thread contexts\<close>

datatype ReadStep =
    READ_NOT_STARTED
  | READ_TRAVERSE
  | READ_PROCESS_CONNECTIONS
  | READ_DANGLING_CONNECTIONS
  | READ_FINISHED

text \<open>The numeric value of each enumerator.\<close>
fun stepValue :: "ReadStep \<Rightarrow> nat" where
  "stepValue READ_NOT_STARTED = 0"
| "stepValue READ_TRAVERSE = 1"
| "stepValue READ_PROCESS_CONNECTIONS = 2"
| "stepValue READ_DANGLING_CONNECTIONS = 3"
| "stepValue READ_FINISHED = 4"

datatype ConnectionType = CONNECTION_LINK | CONNECTION_PTR | CONNECTION_ARRAY

record Connection =
  sourceNode :: node
  sourceAttr :: string
  target :: string
  ctype :: ConnectionType
  outputElement :: string

record TimeSettings =
  frame :: float
  motionBlur :: bool
  motionStart :: float
  motionEnd :: float

text \<open>
  \<open>UsdArnoldReader\<close>. Beside the members of the class the record holds the log of Arnold
  calls \<open>ai\<close>, the process-wide counter of anonymous override layers, and \<open>stepLog\<close>, the
  values assigned to \<open>_readStep\<close> in the order of the assignments.
\<close>
record reader =
  procParent :: "node option"
  convert :: bool
  debug :: bool
  threadCount :: nat
  nodeMask :: int
  time :: TimeSettings
  rstage :: "stage option"
  nodes :: "node list"
  nodeNames :: "(string \<times> node) list"
  defaultShader :: "node option"
  filename :: string
  overrides :: "string list option"
  cacheId :: int
  readerLock :: bool
  readStep :: ReadStep
  purpose :: string
  dispatcher :: bool
  customRegistry :: bool
  shapeId :: nat
  ai :: "ai_call list"
  anonymousOverrideCounter :: nat
  stepLog :: "ReadStep list"

text \<open>\<open>UsdArnoldReaderThreadContext\<close>; a lock member is true once initialised.\<close>
record threadContext =
  connections :: "Connection list"
  tc_nodes :: "node list"
  tc_nodeNames :: "(string \<times> node) list"
  primvarsStack :: "primvar list list"
  tc_dispatcher :: bool
  createNodeLock :: bool
  addConnectionLock :: bool
  addNodeNameLock :: bool

text \<open>\<open>UsdArnoldReaderContext\<close>: the matrix and primvars handed to a dispatched job.\<close>
record readerContext =
  matrix :: "AtMatrix list option"
  cprimvars :: "primvar list"

type_synonym state = "threadContext \<times> reader"

text \<open>
  A prim reader of the registry: it is given the prim, its context and the state, and
  returns the state it leaves. The registry and the helpers of \<open>TimeSettings\<close> are not
  part of the reader; they are parameters of the model, as are the USD calls that open
  a layer, import an override, compose a stage from a root layer and override layers, and
  find a stage in the stage cache (\<open>None\<close> for an invalid id or a missing stage).
  The last four are the machine operations on doubles and floats that round: the
  subtraction of doubles, the conversion of a double to a float, the division of a float
  by an \<open>int\<close>, and the addition of floats.
\<close>
type_synonym primReader = "prim \<Rightarrow> readerContext \<Rightarrow> state \<Rightarrow> state"

record env =
  GetPrimReader :: "string \<Rightarrow> (int \<times> primReader) option"
  timeStart :: "TimeSettings \<Rightarrow> float"
  timeEnd :: "TimeSettings \<Rightarrow> float"
  doubleSub :: "double \<Rightarrow> double \<Rightarrow> double"
  floatOfDouble :: "double \<Rightarrow> float"
  floatDivInt :: "float \<Rightarrow> int \<Rightarrow> float"
  floatAdd :: "float \<Rightarrow> float \<Rightarrow> float"
  nodeEntryType :: "string \<Rightarrow> int"
  FindOrOpen :: "string \<Rightarrow> bool"
  ImportFromString :: "string \<Rightarrow> bool"
  OpenStage :: "string option \<Rightarrow> string list option \<Rightarrow> stage option"
  StageCacheFind :: "int \<Rightarrow> stage option"

definition logCall :: "ai_call \<Rightarrow> reader \<Rightarrow> reader" where
  "logCall c r = r\<lparr>ai := ai r @ [c]\<rparr>"

text \<open>\<open>std::unordered_map\<close>: \<open>operator[]\<close> assignment, and \<open>insert\<close> of a range.\<close>
definition mapAssign :: "string \<Rightarrow> node \<Rightarrow> (string \<times> node) list \<Rightarrow> (string \<times> node) list" where
  "mapAssign k v m = (if k \<in> fst ` set m then map (\<lambda>e. if fst e = k then (k, v) else e) m else m @ [(k, v)])"

definition mapInsertRange :: "(string \<times> node) list \<Rightarrow> (string \<times> node) list \<Rightarrow> (string \<times> node) list" where
  "mapInsertRange m rng = fold (\<lambda>e acc. if fst e \<in> fst ` set acc then acc else acc @ [e]) rng m"

definition LookupNode :: "reader \<Rightarrow> string \<Rightarrow> bool \<Rightarrow> node option" where
  "LookupNode r name checkParent =
     (case map_of (nodeNames r) name of
        Some n \<Rightarrow> Some n
      | None \<Rightarrow>
          (case AiNodeLookUpByName (ai r) name of
             None \<Rightarrow> None
           | Some n \<Rightarrow>
               if checkParent then
                 (case AiNodeGetParent (ai r) n of
                    None \<Rightarrow> Some n
                  | Some parent \<Rightarrow> if Some parent \<noteq> procParent r then None else Some n)
               else Some n))"

definition LockReader :: "reader \<Rightarrow> reader" where
  "LockReader r = (if threadCount r \<noteq> 1 \<and> readerLock r then logCall (AiCritSecEnter ReaderLock) r else r)"

definition UnlockReader :: "reader \<Rightarrow> reader" where
  "UnlockReader r = (if threadCount r \<noteq> 1 \<and> readerLock r then logCall (AiCritSecLeave ReaderLock) r else r)"

definition SetThreadCount :: "nat \<Rightarrow> reader \<Rightarrow> reader" where
  "SetThreadCount t r =
     (let r1 = r\<lparr>threadCount := t\<rparr>
      in if threadCount r1 \<noteq> 1 \<and> \<not> readerLock r1 then r1\<lparr>readerLock := True\<rparr> else r1)"

definition GetDefaultShader :: "reader \<Rightarrow> node \<times> reader" where
  "GetDefaultShader r =
     (let r1 = LockReader r;
          r2 = (case defaultShader r1 of
                  Some d \<Rightarrow> r1
                | None \<Rightarrow>
                    let d = freshNode (ai r1);
                        r3 = logCall (AiNode d ''standard_surface'' ''_default_arnold_shader'' (procParent r1))
                               (r1\<lparr>defaultShader := Some d\<rparr>);
                        u = freshNode (ai r3);
                        r4 = logCall (AiNode u ''user_data_rgb'' ''_default_arnold_shader_color'' (procParent r3)) r3;
                        r5 = r4\<lparr>nodes := nodes r4 @ [d, u]\<rparr>;
                        r6 = logCall (AiNodeSetStr u ''attribute'' ''displayColor'') r5;
                        r7 = logCall (AiNodeSetRGB u ''default'' (Binary 1 0) (Binary 1 0)
                                        (Binary 1 0)) r6
                    in logCall (AiNodeLink u ''base_color'' d) r7);
          r8 = UnlockReader r2
      in (case defaultShader r8 of Some d \<Rightarrow> (d, r8) | None \<Rightarrow> (0, r8)))"

text \<open>The thread context as its constructor leaves it.\<close>
definition UsdArnoldReaderThreadContext :: threadContext where
  "UsdArnoldReaderThreadContext =
     \<lparr>connections = [], tc_nodes = [], tc_nodeNames = [], primvarsStack = [],
      tc_dispatcher = False, createNodeLock = False, addConnectionLock = False,
      addNodeNameLock = False\<rparr>"

definition SetDispatcher :: "bool \<Rightarrow> threadContext \<Rightarrow> threadContext" where
  "SetDispatcher d tc =
     (let tc1 = tc\<lparr>tc_dispatcher := d\<rparr>
      in if tc_dispatcher tc1
         then tc1\<lparr>createNodeLock := True, addConnectionLock := True, addNodeNameLock := True\<rparr>
         else tc1)"

definition AddNodeName :: "string \<Rightarrow> node \<Rightarrow> state \<Rightarrow> state" where
  "AddNodeName name n s =
     (case s of (tc, r) \<Rightarrow>
        let r1 = (if addNodeNameLock tc then logCall (AiCritSecEnter AddNodeNameLock) r else r);
            tc1 = tc\<lparr>tc_nodeNames := mapAssign name n (tc_nodeNames tc)\<rparr>;
            r2 = (if addNodeNameLock tc1 then logCall (AiCritSecLeave AddNodeNameLock) r1 else r1)
        in (tc1, r2))"

definition CreateArnoldNode :: "env \<Rightarrow> string \<Rightarrow> string \<Rightarrow> state \<Rightarrow> node \<times> state" where
  "CreateArnoldNode e ty name s =
     (case s of (tc, r) \<Rightarrow>
        let n = freshNode (ai r);
            r1 = logCall (AiNode n ty name (procParent r)) r;
            r2 = (if procParent r1 \<noteq> None \<and> nodeEntryType e ty = AI_NODE_SHAPE
                  then logCall (AiNodeSetUInt n ''id'' (shapeId r1)) r1 else r1);
            r3 = (if createNodeLock tc then logCall (AiCritSecEnter CreateNodeLock) r2 else r2);
            tc1 = tc\<lparr>tc_nodes := tc_nodes tc @ [n]\<rparr>;
            r4 = (if createNodeLock tc1 then logCall (AiCritSecLeave CreateNodeLock) r3 else r3)
        in (n, (tc1, r4)))"

section \<open>Transforms\<close>

definition primAncestors :: "reader \<Rightarrow> primInfo \<Rightarrow> prim list" where
  "primAncestors r p = (case rstage r of None \<Rightarrow> [] | Some s \<Rightarrow> ancestors s (path p))"

text \<open>
  The value of \<open>timeVal\<close> at each of \<open>n\<close> iterations of the loop over the keys: it
  starts at the lower bound and is advanced by \<open>timeStep\<close> in float arithmetic.
\<close>
fun keyTimes :: "env \<Rightarrow> float \<Rightarrow> float \<Rightarrow> nat \<Rightarrow> float list" where
  "keyTimes e timeVal timeStep 0 = []"
| "keyTimes e timeVal timeStep (Suc n) =
     timeVal # keyTimes e (floatAdd e timeVal timeStep) timeStep n"

text \<open>
  \<open>ReadMatrix\<close> returning the array. The interval holds the doubles of the floats
  \<open>time.start()\<close> and \<open>time.end()\<close>, and \<open>GetTimeSamplesInInterval\<close> on the open
  interval gives the samples strictly between them. \<open>AiArrayAllocate\<close> takes the number
  of keys as a \<open>uint8_t\<close> (Arnold SDK), so the array has \<open>numKeys mod 256\<close> keys, and
  \<open>AiArraySetMtx\<close> at an index beyond them stores nothing. \<open>getMatrix\<close> at a time is
  the matrix \<open>XformAt\<close> of the prim at that time.
\<close>
definition ReadMatrixArray :: "env \<Rightarrow> reader \<Rightarrow> primInfo \<Rightarrow> TimeSettings \<Rightarrow> bool \<Rightarrow> AtMatrix list" where
  "ReadMatrixArray e r p t isXf =
     (let animated0 = xformTimeVarying p;
          animated =
            (if motionBlur t \<and> \<not> animated0
             then list_ex (\<lambda>a. isXformable (info a) \<and> xformTimeVarying (info a)) (primAncestors r p)
             else animated0)
      in if motionBlur t \<and> animated then
           (let lo = timeStart e t;
                hi = timeEnd e t;
                timeSamples = filter (\<lambda>x. isLess lo x \<and> isLess x hi) (xformSamples p);
                numKeys = length timeSamples + 2;
                nkeys = numKeys mod 256;
                timeStep = floatDivInt e (floatOfDouble e (doubleSub e hi lo)) (int (numKeys - 1));
                timeVal = floatOfDouble e lo
            in take nkeys (map (\<lambda>tv. XformAt (path p) tv isXf)
                             (keyTimes e timeVal timeStep numKeys)))
         else [XformAt (path p) (frame t) isXf])"

text \<open>\<open>ReadMatrix\<close> setting the array on a node.\<close>
definition ReadMatrix :: "env \<Rightarrow> primInfo \<Rightarrow> node \<Rightarrow> TimeSettings \<Rightarrow> readerContext \<Rightarrow> bool \<Rightarrow> reader \<Rightarrow> reader" where
  "ReadMatrix e p n t ctx isXf r =
     (let matrices = (case matrix ctx of Some m \<Rightarrow> m | None \<Rightarrow> ReadMatrixArray e r p t isXf);
          r1 = logCall (AiNodeSetArray n ''matrix'' (MatrixArray matrices)) r
      in if length matrices > 1
         then logCall (AiNodeSetFlt n ''motion_end'' (motionEnd t))
                (logCall (AiNodeSetFlt n ''motion_start'' (motionStart t)) r1)
         else r1)"

section \<open>Reading one prim\<close>

text \<open>
  \<open>backOf\<close>: \<open>back()\<close>, and \<open>setBack\<close>: assignment to \<open>back()\<close> of the primvars stack. On an empty vector the
  source has no defined behaviour; the model gives the empty set and leaves the stack.
\<close>
definition backOf :: "primvar list list \<Rightarrow> primvar list" where
  "backOf st = (if st = [] then [] else last st)"

definition setBack :: "primvar list list \<Rightarrow> primvar list \<Rightarrow> primvar list list" where
  "setBack st v = (if st = [] then [] else butlast st @ [v])"

text \<open>\<open>UsdArnoldReaderContext::GetPrimvars\<close>: the primvars a prim reader sees.\<close>
definition GetPrimvars :: "readerContext \<Rightarrow> threadContext \<Rightarrow> primvar list" where
  "GetPrimvars ctx tc = (if \<not> tc_dispatcher tc then backOf (primvarsStack tc) else cprimvars ctx)"

text \<open>
  A prim reader works through its context: it creates nodes, registers names, adds
  connections, asks for the default shader and calls Arnold. The members it cannot reach
  (the read step, the stage, the settings, the locks) keep their values.
\<close>
definition runPrimReader :: "primReader \<Rightarrow> prim \<Rightarrow> readerContext \<Rightarrow> state \<Rightarrow> state" where
  "runPrimReader f p ctx s =
     (case s of (tc, r) \<Rightarrow>
        (case f p ctx s of (tc', r') \<Rightarrow>
           (tc\<lparr>connections := connections tc', tc_nodes := tc_nodes tc',
               tc_nodeNames := tc_nodeNames tc', primvarsStack := primvarsStack tc'\<rparr>,
            r\<lparr>nodes := nodes r', defaultShader := defaultShader r', ai := ai r'\<rparr>)))"

text \<open>
  \<open>ReadPrimitive\<close> with \<open>isInstance = false\<close>. A job given to the dispatcher is run at
  once.
\<close>
definition ReadPrimitiveBody :: "env \<Rightarrow> prim \<Rightarrow> readerContext \<Rightarrow> state \<Rightarrow> state" where
  "ReadPrimitiveBody e p ctx s =
     (case s of (tc, r) \<Rightarrow>
        (case GetPrimReader e (typeName (info p)) of
           None \<Rightarrow> s
         | Some (ty, primReader) \<Rightarrow>
             if nodeMask r AND ty \<noteq> 0 then
               (let r1 = (if debug r
                          then logCall (AiMsgInfo (''Object '' @ path (info p) @ '' (type: ''
                                 @ typeName (info p) @ '')'')) r
                          else r)
                in if dispatcher r1 then
                     (let m = ReadMatrixArray e r1 (info p) (time r1) (isXformable (info p));
                          jobContext = \<lparr>matrix = Some m, cprimvars = backOf (primvarsStack tc)\<rparr>
                      in runPrimReader primReader p jobContext (tc, r1))
                   else runPrimReader primReader p ctx (tc, r1))
             else s))"

section \<open>Connections\<close>

text \<open>
  The tokens \<open>std::getline(ss, token, ' ')\<close> yields in turn: a token ends at a space or
  at the end of the string, and a string that ends in a space has no empty last token.
\<close>
function getlineTokens :: "string \<Rightarrow> string list" where
  "getlineTokens ss =
     (if ss = [] then []
      else takeWhile (\<lambda>c. c \<noteq> CHR '' '') ss
           # getlineTokens (drop 1 (dropWhile (\<lambda>c. c \<noteq> CHR '' '') ss)))"
  by pat_completeness auto
termination
proof -
  have "length (dropWhile P ss) - Suc 0 < length ss" if "ss \<noteq> []" for P and ss :: string
    using that length_dropWhile_le [of P ss] by (cases ss) auto
  then show ?thesis
    by (relation "measure length") auto
qed

declare getlineTokens.simps [simp del]

definition primAt :: "reader \<Rightarrow> string \<Rightarrow> prim option" where
  "primAt r name = (case rstage r of None \<Rightarrow> None | Some st \<Rightarrow> GetPrimAtPath st name)"

text \<open>
  "Generate the missing node right away": the prim of that path, if the stage has one,
  is read with its full inherited primvars on top of the stack, and the node is looked
  up again.
\<close>
definition materialize :: "env \<Rightarrow> string \<Rightarrow> state \<Rightarrow> node option \<times> state" where
  "materialize e name s =
     (case s of (tc, r) \<Rightarrow>
        (case primAt r name of
           None \<Rightarrow> (None, s)
         | Some p \<Rightarrow>
             (let tc1 = tc\<lparr>primvarsStack :=
                            setBack (primvarsStack tc) (primvarsWithInheritance (info p))\<rparr>;
                  s1 = ReadPrimitiveBody e p \<lparr>matrix = None, cprimvars = []\<rparr> (tc1, r)
              in (LookupNode (snd s1) name True, s1))))"

text \<open>
  The loop over the names of an array connection. \<open>None\<close> is the \<open>return false\<close> of the
  source: a name that is missing, and in the dangling step still missing after its prim
  was read.
\<close>
fun resolveArray :: "env \<Rightarrow> ReadStep \<Rightarrow> string list \<Rightarrow> node list \<Rightarrow> state \<Rightarrow> node list option \<times> state" where
  "resolveArray e step [] vecNodes s = (Some vecNodes, s)"
| "resolveArray e step (token # tokens) vecNodes s =
     (case LookupNode (snd s) token True of
        Some t \<Rightarrow> resolveArray e step tokens (vecNodes @ [t]) s
      | None \<Rightarrow>
          (case (if step = READ_DANGLING_CONNECTIONS then materialize e token s else (None, s)) of
             (None, s1) \<Rightarrow> (None, s1)
           | (Some t, s1) \<Rightarrow> resolveArray e step tokens (vecNodes @ [t]) s1))"

definition supportedElems :: string where
  "supportedElems = ''xyzrgba''"

text \<open>The pointer is set, or the link is made, once the target node is known.\<close>
definition applyConnection :: "Connection \<Rightarrow> node \<Rightarrow> reader \<Rightarrow> reader" where
  "applyConnection c t r =
     (if ctype c = CONNECTION_PTR then logCall (AiNodeSetPtr (sourceNode c) (sourceAttr c) t) r
      else if ctype c = CONNECTION_LINK then
        (let elem = outputElement c
         in if length elem > 1 \<and> elem ! (length elem - 2) = CHR '':''
               \<and> List.find (\<lambda>x. x = last elem) supportedElems \<noteq> None
            then logCall (AiNodeLinkOutput t [last elem] (sourceNode c) (sourceAttr c)) r
            else logCall (AiNodeLink t (sourceAttr c) (sourceNode c)) r)
      else r)"

text \<open>The nested \<open>usd\<close> procedural created for a prototype that no prim reader converts.\<close>
definition createPrototypeProcedural :: "env \<Rightarrow> Connection \<Rightarrow> state \<Rightarrow> node \<times> state" where
  "createPrototypeProcedural e c s =
     (case CreateArnoldNode e ''usd'' (target c) s of
        (t, (tc1, r1)) \<Rightarrow>
          (let r2 = logCall (AiNodeSetStr t ''filename'' (filename r1)) r1;
               r3 = logCall (AiNodeSetStr t ''object_path'' (target c)) r2;
               r4 = logCall (AiNodeSetFlt t ''frame'' (frame (time r3))) r3;
               r5 = logCall (AiNodeSetFlt t ''motion_start'' (motionStart (time r4))) r4;
               r6 = logCall (AiNodeSetFlt t ''motion_end'' (motionEnd (time r5))) r5;
               r7 = (case overrides r6 of
                       None \<Rightarrow> r6
                     | Some ov \<Rightarrow> logCall (AiNodeSetArray t ''overrides'' (StrArray ov)) r6);
               r8 = logCall (AiNodeSetByte t ''visibility'' 0) r7
           in (t, (tc1, r8))))"

definition ProcessConnection :: "env \<Rightarrow> Connection \<Rightarrow> state \<Rightarrow> bool \<times> state" where
  "ProcessConnection e c s =
     (case s of (tc, r) \<Rightarrow>
        (let step = readStep r
         in if ctype c = CONNECTION_ARRAY then
              (case resolveArray e step (getlineTokens (target c)) [] s of
                 (None, s1) \<Rightarrow> (False, s1)
               | (Some vecNodes, (tc1, r1)) \<Rightarrow>
                   (True, (tc1, logCall (AiNodeSetArray (sourceNode c) (sourceAttr c)
                                           (NodeArray vecNodes)) r1)))
            else
              (case LookupNode r (target c) True of
                 Some t \<Rightarrow> (True, (tc, applyConnection c t r))
               | None \<Rightarrow>
                   if step = READ_DANGLING_CONNECTIONS then
                     (case materialize e (target c) s of
                        (t1, s1) \<Rightarrow>
                          (case (if t1 = None \<and> ctype c = CONNECTION_PTR
                                    \<and> (case primAt r (target c) of
                                          None \<Rightarrow> False
                                        | Some p \<Rightarrow> isPrototype (info p))
                                 then (case createPrototypeProcedural e c s1 of
                                         (t, s2) \<Rightarrow> (Some t, s2))
                                 else (t1, s1)) of
                             (None, s2) \<Rightarrow> (False, s2)
                           | (Some t, (tc2, r2)) \<Rightarrow> (True, (tc2, applyConnection c t r2))))
                   else (False, s))))"

definition AddConnection ::
  "env \<Rightarrow> node \<Rightarrow> string \<Rightarrow> string \<Rightarrow> ConnectionType \<Rightarrow> string \<Rightarrow> state \<Rightarrow> state" where
  "AddConnection e source attr tgt type outputElem s =
     (case s of (tc, r) \<Rightarrow>
        (let conn = \<lparr>sourceNode = source, sourceAttr = attr, target = tgt, ctype = type,
                     outputElement = outputElem\<rparr>
         in if readStep r = READ_TRAVERSE then
              (let r1 = (if addConnectionLock tc
                         then logCall (AiCritSecEnter AddConnectionLock) r else r);
                   tc1 = tc\<lparr>connections := connections tc @ [conn]\<rparr>;
                   r2 = (if addConnectionLock tc1
                         then logCall (AiCritSecLeave AddConnectionLock) r1 else r1)
               in (tc1, r2))
            else if readStep r = READ_DANGLING_CONNECTIONS then snd (ProcessConnection e conn s)
            else s))"

definition ReadPrimitive :: "env \<Rightarrow> prim \<Rightarrow> readerContext \<Rightarrow> bool \<Rightarrow> state \<Rightarrow> state" where
  "ReadPrimitive e p ctx isInstance s =
     (if isInstance then
        (case prototype (info p) of
           None \<Rightarrow> s
         | Some proto \<Rightarrow>
             (case CreateArnoldNode e ''ginstance'' (path (info p)) s of
                (ginstance, (tc1, r1)) \<Rightarrow>
                  (let t = time r1;
                       r2 = (if isXformable (info p)
                             then ReadMatrix e (info p) ginstance t ctx True r1 else r1);
                       r3 = logCall (AiNodeSetFlt ginstance ''motion_start'' (motionStart t)) r2;
                       r4 = logCall (AiNodeSetFlt ginstance ''motion_end'' (motionEnd t)) r3;
                       r5 = logCall (AiNodeSetByte ginstance ''visibility'' AI_RAY_ALL) r4;
                       r6 = logCall (AiNodeSetBool ginstance ''inherit_xform'' False) r5
                   in AddConnection e ginstance ''node'' proto CONNECTION_PTR [] (tc1, r6))))
      else ReadPrimitiveBody e p ctx s)"

text \<open>\<open>ProcessConnections\<close>: the connections that did not resolve are kept.\<close>
fun processLoop :: "env \<Rightarrow> Connection list \<Rightarrow> Connection list \<Rightarrow> state \<Rightarrow> Connection list \<times> state" where
  "processLoop e [] danglingConnections s = (danglingConnections, s)"
| "processLoop e (c # cs) danglingConnections s =
     (case ProcessConnection e c s of
        (ok, s1) \<Rightarrow>
          processLoop e cs (if ok then danglingConnections else danglingConnections @ [c]) s1)"

definition ProcessConnections :: "env \<Rightarrow> state \<Rightarrow> state" where
  "ProcessConnections e s =
     (case s of (tc, r) \<Rightarrow>
        (case processLoop e (connections tc) [] (tc\<lparr>primvarsStack := [[]]\<rparr>, r) of
           (danglingConnections, (tc1, r1)) \<Rightarrow> (tc1\<lparr>connections := danglingConnections\<rparr>, r1)))"

section \<open>Traversal\<close>

text \<open>The pruning test of the traversal: authored invisibility, or an unaccepted purpose.\<close>
definition pruneChildren :: "reader \<Rightarrow> primInfo \<Rightarrow> bool" where
  "pruneChildren r i =
     ((case visibilityAttr i of None \<Rightarrow> False | Some v \<Rightarrow> v = ''invisible'')
      \<or> (case purposeAttr i of
            None \<Rightarrow> False
          | Some pu \<Rightarrow> pu \<noteq> ''default'' \<and> pu \<noteq> purpose r))"

definition pushPrimvars :: "primInfo \<Rightarrow> threadContext \<Rightarrow> threadContext" where
  "pushPrimvars i tc =
     (let primvars = FindIncrementallyInheritablePrimvars i (backOf (primvarsStack tc))
      in if primvars = []
         then tc\<lparr>primvarsStack := primvarsStack tc @ [backOf (primvarsStack tc)]\<rparr>
         else tc\<lparr>primvarsStack := primvarsStack tc @ [primvars]\<rparr>)"

definition popPrimvars :: "threadContext \<Rightarrow> threadContext" where
  "popPrimvars tc = tc\<lparr>primvarsStack := butlast (primvarsStack tc)\<rparr>"

text \<open>
  The loop of \<open>ReaderThread\<close> over the range. Each recursive call is one \<open>++iter\<close> of the
  \<open>for\<close> statement; the pruning branch increments once more before it.
\<close>
function readerLoop ::
  "env \<Rightarrow> nat \<Rightarrow> nat \<Rightarrow> readerContext \<Rightarrow> (prim \<times> bool) list \<Rightarrow> nat \<Rightarrow> state \<Rightarrow> state" where
  "readerLoop e threadId nThreads ctx iter index s =
     (case iter of
        [] \<Rightarrow> s
      | (p, isPostVisit) # rest \<Rightarrow>
          (case s of (tc, r) \<Rightarrow>
             if typeName (info p) = [] \<and> \<not> instanceable (info p) then
               readerLoop e threadId nThreads ctx (increment False iter) index s
             else if isPostVisit then
               readerLoop e threadId nThreads ctx (increment False iter) index (popPrimvars tc, r)
             else
               (let tc1 = pushPrimvars (info p) tc
                in if (isImageable (info p) \<or> take 6 (typeName (info p)) = ''Arnold'')
                      \<and> pruneChildren r (info p) then
                     readerLoop e threadId nThreads ctx (increment False (increment True iter))
                       index (tc1, r)
                   else if nThreads > 1 \<and> (index + threadId) mod nThreads \<noteq> 0 then
                     readerLoop e threadId nThreads ctx (increment False iter) (index + 1) (tc1, r)
                   else
                     readerLoop e threadId nThreads ctx (increment False iter)
                       (if nThreads > 1 then index + 1 else index)
                       (ReadPrimitive e p ctx (instanceable (info p)) (tc1, r)))))"
  by pat_completeness auto
termination
proof -
  have le: "length (increment b it) \<le> length it" for b it
    by (auto simp: increment_def split: list.splits)
  have one: "length (increment b (x # it)) < Suc (length it)" for b x it
    by (auto simp: increment_def split: list.splits prod.splits)
  have two: "length (increment b (increment c (x # it))) < Suc (length it)" for b c x it
    using le [of b "increment c (x # it)"] one [of c x it] by simp
  show ?thesis
    by (relation "measure (\<lambda>(e, threadId, nThreads, ctx, iter, index, s). length iter)")
       (auto simp: one two)
qed

declare readerLoop.simps [simp del]

definition ReaderThread :: "env \<Rightarrow> nat \<Rightarrow> nat \<Rightarrow> prim option \<Rightarrow> readerContext \<Rightarrow> state \<Rightarrow> state" where
  "ReaderThread e threadId nThreads rootPrim ctx s =
     (case s of (tc, r) \<Rightarrow>
        (let tc1 = tc\<lparr>primvarsStack := [[]]\<rparr>
         in case (case rootPrim of
                    Some p \<Rightarrow> Some p
                  | None \<Rightarrow> (case rstage r of None \<Rightarrow> None | Some st \<Rightarrow> Some (pseudoRoot st))) of
              None \<Rightarrow> (tc1, r)
            | Some rootp \<Rightarrow> readerLoop e threadId nThreads ctx (preAndPost rootp) 0 (tc1, r)))"

section \<open>Reading a stage\<close>

definition setReadStep :: "ReadStep \<Rightarrow> reader \<Rightarrow> reader" where
  "setReadStep st r = r\<lparr>readStep := st, stepLog := stepLog r @ [st]\<rparr>"

definition newContext :: readerContext where
  "newContext = \<lparr>matrix = None, cprimvars = []\<rparr>"

text \<open>The shutter of the render camera decides the motion blur of the whole read.\<close>
definition readShutter :: "stage \<Rightarrow> reader \<Rightarrow> reader" where
  "readShutter st r =
     (if procParent r = None then
        (case optionsCamera st of
           None \<Rightarrow> r
         | Some cam \<Rightarrow>
             (let shutterStart = (if isCamera cam
                                  then (case shutterOpen cam of Some v \<Rightarrow> v
                                        | None \<Rightarrow> Binary 0 0)
                                  else Binary 0 0);
                  shutterEnd = (if isCamera cam
                                then (case shutterClose cam of Some v \<Rightarrow> v
                                      | None \<Rightarrow> Binary 0 0)
                                else Binary 0 0)
              in r\<lparr>time := (time r)\<lparr>motionBlur := isLess shutterStart shutterEnd,
                                     motionStart := shutterStart, motionEnd := shutterEnd\<rparr>\<rparr>))
      else r)"

text \<open>With a thread count of zero one thread traverses and a dispatcher runs the jobs.\<close>
definition startDispatcher :: "reader \<Rightarrow> reader" where
  "startDispatcher r = (if threadCount r = 0 then r\<lparr>dispatcher := True\<rparr> else r)"

text \<open>The reader when the first step begins.\<close>
definition traverseStart :: "reader \<Rightarrow> reader" where
  "traverseStart r = setReadStep READ_TRAVERSE (startDispatcher r)"

text \<open>
  The context \<open>ReadStage\<close> sets up for a thread. \<open>SetReader\<close> only creates the
  transform cache of the context, which the model leaves out.
\<close>
definition threadContextFor :: "reader \<Rightarrow> threadContext" where
  "threadContextFor r = SetDispatcher (dispatcher r) UsdArnoldReaderThreadContext"

text \<open>
  First step. The threads are run one after the other: thread \<open>i\<close> gets a context of its
  own, set up with the reader's dispatcher, and traverses the whole range.
\<close>
definition traverseThread ::
  "env \<Rightarrow> prim option \<Rightarrow> nat \<Rightarrow> nat \<Rightarrow> threadContext list \<times> reader \<Rightarrow> threadContext list \<times> reader" where
  "traverseThread e rootPrim nThreads i acc =
     (case acc of (threadData, r) \<Rightarrow>
        (case ReaderThread e i nThreads rootPrim newContext
                (threadContextFor r, r) of
           (tc, r1) \<Rightarrow> (threadData @ [tc], r1)))"

text \<open>The nodes and names of a context are moved to the reader.\<close>
definition mergeNodes :: "state \<Rightarrow> state" where
  "mergeNodes s =
     (case s of (tc, r) \<Rightarrow>
        (tc\<lparr>tc_nodes := [], tc_nodeNames := []\<rparr>,
         r\<lparr>nodes := nodes r @ tc_nodes tc,
           nodeNames := mapInsertRange (nodeNames r) (tc_nodeNames tc)\<rparr>))"

definition mergeThread :: "threadContext \<Rightarrow> threadContext list \<times> reader \<Rightarrow> threadContext list \<times> reader" where
  "mergeThread tc acc =
     (case acc of (threadData, r) \<Rightarrow>
        (case mergeNodes (tc, r) of (tc1, r1) \<Rightarrow> (threadData @ [tc1], r1)))"

text \<open>Second step: each thread processes the connections of its context.\<close>
definition processThread ::
  "env \<Rightarrow> threadContext \<Rightarrow> threadContext list \<times> reader \<Rightarrow> threadContext list \<times> reader" where
  "processThread e tc acc =
     (case acc of (threadData, r) \<Rightarrow>
        (case ProcessConnections e (tc, r) of (tc1, r1) \<Rightarrow> (threadData @ [tc1], r1)))"

text \<open>Third step, on the first context only: one dangling connection.\<close>
definition danglingConnection :: "env \<Rightarrow> Connection \<Rightarrow> state \<Rightarrow> state" where
  "danglingConnection e conn s =
     (case s of (tc, r) \<Rightarrow>
        (let s1 = (case LookupNode r (target conn) True of
                     Some t \<Rightarrow> s
                   | None \<Rightarrow>
                       (case primAt r (target conn) of
                          None \<Rightarrow> s
                        | Some p \<Rightarrow> ReadPrimitive e p newContext False s))
         in snd (ProcessConnection e conn s1)))"

definition danglingPass :: "env \<Rightarrow> Connection list \<Rightarrow> threadContext list \<times> reader \<Rightarrow> threadContext list \<times> reader" where
  "danglingPass e danglingConnections acc =
     (case acc of (threadData, r) \<Rightarrow>
        (if danglingConnections \<noteq> [] then
           (case threadData of
              [] \<Rightarrow> acc
            | context # others \<Rightarrow>
                (case mergeNodes (fold (danglingConnection e) danglingConnections (context, r)) of
                   (tc1, r1) \<Rightarrow> (tc1 # others, r1)))
         else acc))"

text \<open>
  \<open>ReadStage\<close> from the traversal on, once the root prim is known. Baking the skinning
  changes geometry that the model of the stage does not hold, and is left out.
\<close>
definition readSteps :: "env \<Rightarrow> prim option \<Rightarrow> reader \<Rightarrow> reader" where
  "readSteps e rootPrim r =
     (let nThreads = (if threadCount r = 0 then 1 else threadCount r);
          r2 = traverseStart r
      in case fold (traverseThread e rootPrim nThreads) [0..<nThreads] ([], r2) of
           (threadData1, r3) \<Rightarrow>
             (case fold mergeThread threadData1 ([], r3) of
                (threadData2, r4) \<Rightarrow>
                  (let r5 = (if dispatcher r4 then r4\<lparr>dispatcher := False\<rparr> else r4);
                       r6 = setReadStep READ_PROCESS_CONNECTIONS r5
                   in case fold (processThread e) threadData2 ([], r6) of
                        (threadData3, r7) \<Rightarrow>
                          (let danglingConnections = concat (map connections threadData3);
                               threadData4 = map (\<lambda>tc. tc\<lparr>connections := []\<rparr>) threadData3;
                               r8 = setReadStep READ_DANGLING_CONNECTIONS r7
                           in case danglingPass e danglingConnections (threadData4, r8) of
                                (threadData5, r9) \<Rightarrow>
                                  setReadStep READ_FINISHED (r9\<lparr>rstage := None\<rparr>)))))"

text \<open>
  The start of \<open>ReadStage\<close>: the debug message, the mask of a procedural, and the
  registry (the global one is initialised under the global mutex).
\<close>
definition prepareStage :: "reader \<Rightarrow> reader" where
  "prepareStage r =
     (let r1 = (if debug r then logCall (AiMsgWarning ''==== Initializing Usd Reader '') r
                else r);
          procMask = (if procParent r1 \<noteq> None
                      then AI_NODE_CAMERA OR AI_NODE_LIGHT OR AI_NODE_SHAPE
                           OR AI_NODE_SHADER OR AI_NODE_OPERATOR
                      else AI_NODE_ALL);
          r2 = r1\<lparr>nodeMask := nodeMask r1 AND procMask\<rparr>
      in if \<not> customRegistry r2
         then logCall (AiCritSecLeave GlobalReaderMutex)
                (logCall (AiCritSecEnter GlobalReaderMutex) r2)
         else r2)"

definition ReadStage :: "env \<Rightarrow> stage option \<Rightarrow> string \<Rightarrow> reader \<Rightarrow> reader" where
  "ReadStage e stg pth r0 =
     (let r = r0\<lparr>rstage := stg\<rparr>
      in case stg of
           None \<Rightarrow> logCall (AiMsgError (''[usd] Unable to create USD stage from '' @ filename r)) r
         | Some st \<Rightarrow>
             (let r3 = prepareStage r
              in if pth \<noteq> [] then
                   (case GetPrimAtPath st pth of
                      None \<Rightarrow> logCall (AiMsgError (''[usd] Object Path '' @ pth @ '' is not valid'')) r3
                    | Some rootPrim \<Rightarrow>
                        if \<not> active (info rootPrim)
                        then logCall (AiMsgWarning (''[usd] Object Path primitive '' @ pth
                                        @ '' is not active'')) r3
                        else readSteps e (Some rootPrim) (readShutter st r3))
                 else readSteps e None (readShutter st r3)))"

definition getLayerName :: "reader \<Rightarrow> reader" where
  "getLayerName r =
     logCall (AiCritSecLeave GlobalReaderMutex)
       ((logCall (AiCritSecEnter GlobalReaderMutex) r)
          \<lparr>anonymousOverrideCounter := anonymousOverrideCounter r + 1\<rparr>)"

text \<open>\<open>Read\<close> of a file, with its overrides and the object path.\<close>
definition Read :: "env \<Rightarrow> string \<Rightarrow> string list option \<Rightarrow> string \<Rightarrow> reader \<Rightarrow> reader" where
  "Read e fname ovr pth r =
     (if nodes r \<noteq> [] then r
      else
        (let rootLayer = FindOrOpen e fname;
             r1 = r\<lparr>filename := fname, overrides := ovr\<rparr>
         in case (case ovr of None \<Rightarrow> None | Some [] \<Rightarrow> None | Some (x # xs) \<Rightarrow> Some (x # xs)) of
              None \<Rightarrow>
                if \<not> rootLayer
                then logCall (AiMsgError (''[usd] Failed to open file ('' @ fname @ '')'')) r1
                else (ReadStage e (OpenStage e (Some fname) None) pth r1)
                       \<lparr>filename := [], overrides := None\<rparr>
            | Some layerStrings \<Rightarrow>
                (let r2 = fold (\<lambda>x. getLayerName) layerStrings (getLayerName r1);
                     layers = filter (ImportFromString e) layerStrings;
                     stg = OpenStage e (if rootLayer then Some fname else None) (Some layers)
                 in (ReadStage e stg pth r2)\<lparr>filename := [], overrides := None\<rparr>)))"

text \<open>\<open>Read\<close> of a stage of the stage cache.\<close>
definition ReadCacheId :: "env \<Rightarrow> int \<Rightarrow> string \<Rightarrow> reader \<Rightarrow> reader" where
  "ReadCacheId e cid pth r =
     (if nodes r \<noteq> [] then r
      else
        (let r1 = r\<lparr>cacheId := cid\<rparr>
         in case StageCacheFind e cid of
              None \<Rightarrow> logCall (AiMsgError ''[usd] Cache ID not valid'') r1
            | Some st \<Rightarrow> ReadStage e (Some st) pth r1))"

section \<open>Settings\<close>

definition ClearNodes :: "reader \<Rightarrow> reader" where
  "ClearNodes r =
     (let r1 = (if procParent r = None then r\<lparr>ai := ai r @ map AiNodeDestroy (nodes r)\<rparr> else r)
      in r1\<lparr>nodes := [], defaultShader := None\<rparr>)"

definition SetFrame :: "float \<Rightarrow> reader \<Rightarrow> reader" where
  "SetFrame f r = (let r1 = ClearNodes r in r1\<lparr>time := (time r1)\<lparr>frame := f\<rparr>\<rparr>)"

definition SetMotionBlur :: "bool \<Rightarrow> float \<Rightarrow> float \<Rightarrow> reader \<Rightarrow> reader" where
  "SetMotionBlur mb mStart mEnd r =
     (let r1 = ClearNodes r
      in r1\<lparr>time := (time r1)\<lparr>motionBlur := mb, motionStart := mStart, motionEnd := mEnd\<rparr>\<rparr>)"

definition SetDebug :: "bool \<Rightarrow> reader \<Rightarrow> reader" where
  "SetDebug b r = (let r1 = ClearNodes r in r1\<lparr>debug := b\<rparr>)"

definition SetConvertPrimitives :: "bool \<Rightarrow> reader \<Rightarrow> reader" where
  "SetConvertPrimitives b r = (let r1 = ClearNodes r in r1\<lparr>convert := b\<rparr>)"

section \<open>Example readers and scenes\<close>

text \<open>The reader as its constructor leaves it, for given default time settings.\<close>
definition UsdArnoldReader :: "TimeSettings \<Rightarrow> reader" where
  "UsdArnoldReader t =
     \<lparr>procParent = None, convert = True, debug = False, threadCount = 1,
      nodeMask = AI_NODE_ALL, time = t, rstage = None, nodes = [], nodeNames = [],
      defaultShader = None, filename = [], overrides = None, cacheId = 0,
      readerLock = False, readStep = READ_NOT_STARTED, purpose = ''render'',
      dispatcher = False, customRegistry = False, shapeId = 0, ai = [],
      anonymousOverrideCounter = 0, stepLog = []\<rparr>"

definition exampleTime :: TimeSettings where
  "exampleTime = \<lparr>frame = Binary 1 0, motionBlur = False, motionStart = Binary 0 0,
                  motionEnd = Binary 0 0\<rparr>"

text \<open>
  Addition and subtraction of binary numbers without rounding, and a division by an
  integer that is exact when the divisor is a power of two up to \<open>2 ^ 24\<close>: what the
  machine operations give whenever the exact result is a float.
\<close>
fun exactAdd :: "binary \<Rightarrow> binary \<Rightarrow> binary" where
  "exactAdd (Binary m1 e1) (Binary m2 e2) =
     Binary (m1 * 2 ^ nat (e1 - min e1 e2) + m2 * 2 ^ nat (e2 - min e1 e2)) (min e1 e2)"

fun negate :: "binary \<Rightarrow> binary" where
  "negate (Binary m e) = Binary (- m) e"

fun divideBy :: "binary \<Rightarrow> int \<Rightarrow> binary" where
  "divideBy (Binary m e) n = Binary (m * 2 ^ 24 div n) (e - 24)"

text \<open>
  An environment with an empty registry, where no file opens. The interval of the time
  settings is the shutter interval at the frame.
\<close>
definition baseEnv :: env where
  "baseEnv =
     \<lparr>GetPrimReader = (\<lambda>ty. None), timeStart = (\<lambda>t. exactAdd (motionStart t) (frame t)),
      timeEnd = (\<lambda>t. exactAdd (motionEnd t) (frame t)),
      doubleSub = (\<lambda>a b. exactAdd a (negate b)), floatOfDouble = (\<lambda>d. d),
      floatDivInt = divideBy, floatAdd = exactAdd,
      nodeEntryType = (\<lambda>ty. if ty = ''polymesh'' then AI_NODE_SHAPE else AI_NODE_SHADER),
      FindOrOpen = (\<lambda>f. False), ImportFromString = (\<lambda>x. True),
      OpenStage = (\<lambda>f ov. None), StageCacheFind = (\<lambda>i. None)\<rparr>"

text \<open>
  A prim reader that creates one node named after the prim, registers the name, and
  exports each primvar it sees as a string parameter naming the prim that authors it.
\<close>
definition nodeReader :: "string \<Rightarrow> primReader" where
  "nodeReader ty p ctx s =
     (case CreateArnoldNode baseEnv ty (path (info p)) s of
        (n, s1) \<Rightarrow>
          (case AddNodeName (path (info p)) n s1 of
             (tc2, r2) \<Rightarrow>
               (tc2, fold (\<lambda>pv. logCall (AiNodeSetStr n (''primvars:'' @ fst pv) (snd pv)))
                       (GetPrimvars ctx tc2) r2)))"

text \<open>A mesh reader: a polymesh whose shaders are the nodes listed in \<open>shaders\<close>.\<close>
definition meshReader :: "string \<Rightarrow> primReader" where
  "meshReader shaders p ctx s =
     (case CreateArnoldNode baseEnv ''polymesh'' (path (info p)) s of
        (n, s1) \<Rightarrow>
          AddConnection baseEnv n ''shader'' shaders CONNECTION_ARRAY []
            (AddNodeName (path (info p)) n s1))"

definition exampleEnv :: env where
  "exampleEnv = baseEnv\<lparr>GetPrimReader :=
     (\<lambda>ty. if ty = ''Mesh'' then Some (AI_NODE_SHAPE, meshReader ''/a /b /c'')
           else if ty = ''ArnoldStandardSurface''
           then Some (AI_NODE_SHADER, nodeReader ''standard_surface'')
           else if ty = ''Sphere'' then Some (AI_NODE_SHAPE, nodeReader ''sphere'')
           else None)\<rparr>"

definition examplePrim :: "string \<Rightarrow> string \<Rightarrow> primInfo" where
  "examplePrim pth ty =
     \<lparr>path = pth, typeName = ty, instanceable = False, active = True, isImageable = False,
      visibilityAttr = None, purposeAttr = None, authoredPrimvars = [],
      primvarsWithInheritance = [], isXformable = False, xformTimeVarying = False,
      xformSamples = [], prototype = None, isPrototype = False\<rparr>"

text \<open>A reader in the second step that knows the node \<open>/tex\<close>, and a link to that node.\<close>
definition linkReader :: reader where
  "linkReader = (UsdArnoldReader exampleTime)
                  \<lparr>nodeNames := [(''/tex'', 7)], readStep := READ_PROCESS_CONNECTIONS\<rparr>"

definition linkConnection :: "string \<Rightarrow> Connection" where
  "linkConnection elem =
     \<lparr>sourceNode = 3, sourceAttr = ''base_color'', target = ''/tex'',
      ctype = CONNECTION_LINK, outputElement = elem\<rparr>"

text \<open>A reader that holds two nodes and a default shader from an earlier read.\<close>
definition readReader :: reader where
  "readReader = (UsdArnoldReader exampleTime)
                  \<lparr>nodes := [1, 2], defaultShader := Some 1, readStep := READ_FINISHED,
                   ai := [AiNode 1 ''standard_surface'' ''_default_arnold_shader'' None,
                          AiNode 2 ''user_data_rgb'' ''_default_arnold_shader_color'' None]\<rparr>"

text \<open>
  A scene for array connections: the mesh \<open>/m\<close> lists the shaders \<open>/a /b /c\<close>, where
  \<open>/a\<close> is invisible, \<open>/b\<close> is visible and no prim \<open>/c\<close> exists.
\<close>
definition arrayStage :: stage where
  "arrayStage =
     \<lparr>pseudoRoot = Prim (examplePrim ''/'' [])
        [Prim ((examplePrim ''/m'' ''Mesh'')\<lparr>isImageable := True\<rparr>) [],
         Prim ((examplePrim ''/a'' ''ArnoldStandardSurface'')
                 \<lparr>visibilityAttr := Some ''invisible''\<rparr>) [],
         Prim (examplePrim ''/b'' ''ArnoldStandardSurface'') []],
      prototypes = [], optionsCamera = None\<rparr>"

definition arrayConnection :: "node \<Rightarrow> string \<Rightarrow> Connection" where
  "arrayConnection src names =
     \<lparr>sourceNode = src, sourceAttr = ''shader'', target = names,
      ctype = CONNECTION_ARRAY, outputElement = []\<rparr>"

text \<open>The reader and the first context when the dangling step of that scene begins.\<close>
definition danglingReader :: reader where
  "danglingReader = (UsdArnoldReader exampleTime)
     \<lparr>rstage := Some arrayStage, nodes := [1, 2], nodeNames := [(''/m'', 1), (''/b'', 2)],
      readStep := READ_DANGLING_CONNECTIONS,
      ai := [AiNode 1 ''polymesh'' ''/m'' None, AiNode 2 ''standard_surface'' ''/b'' None]\<rparr>"

definition danglingContext :: threadContext where
  "danglingContext = UsdArnoldReaderThreadContext\<lparr>primvarsStack := [[]]\<rparr>"

text \<open>
  A scene with two siblings: the transform \<open>/hidden\<close>, which authors the primvar
  \<open>displayColor\<close> and has the given visibility, and the sphere \<open>/ball\<close>.
\<close>
definition siblingStage :: "string option \<Rightarrow> stage" where
  "siblingStage vis =
     \<lparr>pseudoRoot = Prim (examplePrim ''/'' [])
        [Prim ((examplePrim ''/hidden'' ''Xform'')
                 \<lparr>isImageable := True, visibilityAttr := vis,
                  authoredPrimvars := [''displayColor'']\<rparr>)
           [Prim ((examplePrim ''/hidden/ball'' ''Sphere'')\<lparr>isImageable := True\<rparr>) []],
         Prim ((examplePrim ''/ball'' ''Sphere'')\<lparr>isImageable := True\<rparr>) []],
      prototypes = [], optionsCamera = None\<rparr>"

definition traversingReader :: "stage \<Rightarrow> reader" where
  "traversingReader st =
     (UsdArnoldReader exampleTime)\<lparr>rstage := Some st, readStep := READ_TRAVERSE\<rparr>"

text \<open>
  The float and the double nearest to one tenth. Neither is one tenth: the double is a
  little above it and the float is above the double.
\<close>
definition tenthFloat :: float where
  "tenthFloat = Binary 13421773 (- 27)"


text \<open>
  The time settings of a reader whose shutter was set to \<open>[-0.1, 0.1]\<close>, at frame 0; a
  prim with six transform samples, three of them strictly inside the shutter and one on
  its upper bound; and a prim whose one sample is the double nearest to one tenth.
\<close>
definition shutterTime :: TimeSettings where
  "shutterTime = \<lparr>frame = Binary 0 0, motionBlur = True, motionStart = negate tenthFloat,
                  motionEnd = tenthFloat\<rparr>"



text \<open>A prim with 255 transform samples strictly inside that shutter.\<close>
definition crowdedPrim :: primInfo where
  "crowdedPrim = (examplePrim ''/crowd'' ''Sphere'')
     \<lparr>isXformable := True, xformTimeVarying := True,
      xformSamples := map (\<lambda>i. Binary (int i) (- 12)) [1..<256]\<rparr>"

section \<open>Observations\<close>

text \<open>The calls that create or destroy a node; no other call changes a lookup by name.\<close>
fun nodeCall :: "ai_call \<Rightarrow> bool" where
  "nodeCall (AiNode n ty nm par) = True"
| "nodeCall (AiNodeDestroy n) = True"
| "nodeCall _ = False"

text \<open>A connection resolves in a reader when every node it names is found.\<close>
definition resolves :: "reader \<Rightarrow> Connection \<Rightarrow> bool" where
  "resolves r c =
     (if ctype c = CONNECTION_ARRAY
      then list_all (\<lambda>name. LookupNode r name True \<noteq> None) (getlineTokens (target c))
      else LookupNode r (target c) True \<noteq> None)"

definition steps :: "reader \<Rightarrow> ReadStep \<times> ReadStep list" where
  "steps r = (readStep r, stepLog r)"

text \<open>The values assigned to the read step between two states of the reader.\<close>
definition assigned :: "reader \<Rightarrow> reader \<Rightarrow> ReadStep list" where
  "assigned r r' = drop (length (stepLog r)) (stepLog r')"

text \<open>Each step of the list is strictly later in the enumeration than those before it.\<close>
definition advancing :: "ReadStep list \<Rightarrow> bool" where
  "advancing xs = sorted_wrt (\<lambda>a b. stepValue a < stepValue b) xs"

fun enteredLock :: "ai_call \<Rightarrow> lockId list" where
  "enteredLock (AiCritSecEnter l) = [l]"
| "enteredLock _ = []"

text \<open>The locks entered between two states of the reader.\<close>
definition locksTaken :: "reader \<Rightarrow> reader \<Rightarrow> lockId list" where
  "locksTaken r r' = concat (map enteredLock (drop (length (ai r)) (ai r')))"

text \<open>
  The transform samples of a prim strictly inside the shutter interval at the frame,
  from \<open>frame + motionStart\<close> to \<open>frame + motionEnd\<close>.
\<close>
definition insideShutter :: "TimeSettings \<Rightarrow> primInfo \<Rightarrow> double list" where
  "insideShutter t p =
     filter (\<lambda>x. valueOf (frame t) + valueOf (motionStart t) < valueOf x
                \<and> valueOf x < valueOf (frame t) + valueOf (motionEnd t)) (xformSamples p)"

section \<open>Output components of a link\<close>

text \<open>
  The channel an output component names, in the words of the specification: the
  component ends in a colon followed by one of the letters x, y, z, r, g, b, a.
\<close>
definition channelOf :: "string \<Rightarrow> char option" where
  "channelOf elem =
     (case rev elem of
        ch # sep # _ \<Rightarrow> if sep = CHR '':'' \<and> ch \<in> set ''xyzrgba'' then Some ch else None
      | _ \<Rightarrow> None)"

lemma channelOf_code:
  "channelOf elem =
     (if length elem > 1 \<and> elem ! (length elem - 2) = CHR '':''
         \<and> List.find (\<lambda>x. x = last elem) supportedElems \<noteq> None
      then Some (last elem) else None)"
proof (cases "rev elem")
  case Nil
  then show ?thesis by (simp add: channelOf_def)
next
  case (Cons ch rest)
  note outer = Cons
  show ?thesis
  proof (cases rest)
    case Nil
    with outer have "elem = [ch]" by (metis rev_singleton_conv)
    then show ?thesis by (simp add: channelOf_def)
  next
    case (Cons sep pre)
    with outer have el: "elem = rev pre @ [sep, ch]"
      by (metis append.assoc append_Cons append_Nil rev.simps(2) rev_swap)
    have "(List.find (\<lambda>x. x = ch) supportedElems \<noteq> None) = (ch \<in> set ''xyzrgba'')"
      by (auto simp: find_None_iff supportedElems_def)
    then show ?thesis
      using el by (simp add: channelOf_def nth_append)
  qed
qed

text \<open>
  C7. A link whose target node exists is made at once, in any step. When the output
  component names a channel, only that channel of the target's output is linked to the
  source attribute; for every other output component the whole output is linked.
\<close>
theorem link_output_component:
  assumes "ctype c = CONNECTION_LINK" and "LookupNode r (target c) True = Some t"
  shows "ProcessConnection e c (tc, r) =
           (True, (tc, logCall (case channelOf (outputElement c) of
                                  Some ch \<Rightarrow> AiNodeLinkOutput t [ch] (sourceNode c) (sourceAttr c)
                                | None \<Rightarrow> AiNodeLink t (sourceAttr c) (sourceNode c)) r))"
  using assms
  by (auto simp: ProcessConnection_def applyConnection_def channelOf_code Let_def)

theorem link_output_component_witness:
  "ProcessConnection baseEnv (linkConnection ''outputs:r'')
       (UsdArnoldReaderThreadContext, linkReader)
     = (True, (UsdArnoldReaderThreadContext,
               logCall (AiNodeLinkOutput 7 ''r'' 3 ''base_color'') linkReader))
   \<and> ProcessConnection baseEnv (linkConnection ''outputs:out'')
       (UsdArnoldReaderThreadContext, linkReader)
     = (True, (UsdArnoldReaderThreadContext,
               logCall (AiNodeLink 7 ''base_color'' 3) linkReader))"
  using link_output_component [of "linkConnection ''outputs:r''" linkReader 7 baseEnv
          UsdArnoldReaderThreadContext]
    link_output_component [of "linkConnection ''outputs:out''" linkReader 7 baseEnv
          UsdArnoldReaderThreadContext]
  by (simp add: linkConnection_def linkReader_def LookupNode_def channelOf_def
        UsdArnoldReader_def)

section \<open>Guards of the entry points\<close>

text \<open>
  C5. While the node list is not empty, both overloads of \<open>Read\<close> return at once and
  leave the reader, the Arnold log included, as it was.
\<close>
theorem Read_with_nodes_is_noop:
  assumes "nodes r \<noteq> []"
  shows "Read e fname ovr pth r = r \<and> ReadCacheId e cid pth r = r"
  using assms by (simp add: Read_def ReadCacheId_def)

theorem Read_with_nodes_is_noop_witness:
  "Read exampleEnv ''scene.usd'' None [] readReader = readReader
   \<and> ReadCacheId exampleEnv 5 [] readReader = readReader"
  using Read_with_nodes_is_noop [of readReader exampleEnv "''scene.usd''" None "[]" 5]
  by (simp add: readReader_def)

text \<open>
  C10. Outside the traversal and the dangling step \<open>AddConnection\<close> does nothing: the
  connection is not appended, not resolved, and the state is as before.
\<close>
theorem AddConnection_outside_steps_discards:
  assumes "readStep r \<noteq> READ_TRAVERSE" and "readStep r \<noteq> READ_DANGLING_CONNECTIONS"
  shows "AddConnection e source attr tgt type outputElem (tc, r) = (tc, r)"
  using assms by (simp add: AddConnection_def)

theorem AddConnection_outside_steps_discards_witness:
  "AddConnection exampleEnv 3 ''shader'' ''/tex'' CONNECTION_PTR []
       (UsdArnoldReaderThreadContext, linkReader)
     = (UsdArnoldReaderThreadContext, linkReader)
   \<and> AddConnection exampleEnv 3 ''shader'' ''/tex'' CONNECTION_PTR []
       (UsdArnoldReaderThreadContext, readReader)
     = (UsdArnoldReaderThreadContext, readReader)
   \<and> AddConnection exampleEnv 3 ''shader'' ''/tex'' CONNECTION_PTR []
       (UsdArnoldReaderThreadContext, UsdArnoldReader exampleTime)
     = (UsdArnoldReaderThreadContext, UsdArnoldReader exampleTime)"
  using AddConnection_outside_steps_discards [of linkReader]
    AddConnection_outside_steps_discards [of readReader]
    AddConnection_outside_steps_discards [of "UsdArnoldReader exampleTime"]
  by (simp add: linkReader_def readReader_def UsdArnoldReader_def)

section \<open>Settings invalidate the nodes\<close>

text \<open>With an empty node list \<open>Read\<close> of a file that opens reads its stage.\<close>
definition readsStage :: "env \<Rightarrow> string \<Rightarrow> string \<Rightarrow> reader \<Rightarrow> bool" where
  "readsStage e fname pth r =
     (Read e fname None pth r
        = (ReadStage e (OpenStage e (Some fname) None) pth
             (r\<lparr>filename := fname, overrides := None\<rparr>))\<lparr>filename := [], overrides := None\<rparr>)"

lemma Read_without_nodes:
  "nodes r = [] \<Longrightarrow> FindOrOpen e fname \<Longrightarrow> readsStage e fname pth r"
  by (simp add: readsStage_def Read_def Let_def)

text \<open>
  C6. Each of the four setters first clears the nodes and then stores its setting.
  Clearing destroys every node of the list when there is no procedural parent, empties
  the list and resets the default shader; with the list empty, the next \<open>Read\<close> of a
  file that opens passes its guard and reads the stage again.
\<close>
theorem setters_clear_nodes:
  "SetFrame f r = (ClearNodes r)\<lparr>time := (time r)\<lparr>frame := f\<rparr>\<rparr>
   \<and> SetMotionBlur mb mStart mEnd r =
       (ClearNodes r)\<lparr>time := (time r)\<lparr>motionBlur := mb, motionStart := mStart,
                                       motionEnd := mEnd\<rparr>\<rparr>
   \<and> SetDebug b r = (ClearNodes r)\<lparr>debug := b\<rparr>
   \<and> SetConvertPrimitives b r = (ClearNodes r)\<lparr>convert := b\<rparr>
   \<and> nodes (ClearNodes r) = []
   \<and> defaultShader (ClearNodes r) = None
   \<and> ai (ClearNodes r)
       = ai r @ (if procParent r = None then map AiNodeDestroy (nodes r) else [])
   \<and> (FindOrOpen e fname \<longrightarrow>
         readsStage e fname pth (SetFrame f r)
         \<and> readsStage e fname pth (SetMotionBlur mb mStart mEnd r)
         \<and> readsStage e fname pth (SetDebug b r)
         \<and> readsStage e fname pth (SetConvertPrimitives b r))"
proof -
  have setters: "SetFrame f r = (ClearNodes r)\<lparr>time := (time r)\<lparr>frame := f\<rparr>\<rparr>"
    "SetMotionBlur mb mStart mEnd r =
       (ClearNodes r)\<lparr>time := (time r)\<lparr>motionBlur := mb, motionStart := mStart,
                                       motionEnd := mEnd\<rparr>\<rparr>"
    "SetDebug b r = (ClearNodes r)\<lparr>debug := b\<rparr>"
    "SetConvertPrimitives b r = (ClearNodes r)\<lparr>convert := b\<rparr>"
    by (simp_all add: SetFrame_def SetMotionBlur_def SetDebug_def SetConvertPrimitives_def
          ClearNodes_def Let_def)
  have cleared: "nodes (ClearNodes r) = []" "defaultShader (ClearNodes r) = None"
    "ai (ClearNodes r) = ai r @ (if procParent r = None then map AiNodeDestroy (nodes r) else [])"
    by (simp_all add: ClearNodes_def Let_def)
  have empty: "nodes (SetFrame f r) = []" "nodes (SetMotionBlur mb mStart mEnd r) = []"
    "nodes (SetDebug b r) = []" "nodes (SetConvertPrimitives b r) = []"
    by (simp_all add: setters cleared)
  show ?thesis
    using setters cleared empty [THEN Read_without_nodes, of e fname pth] by blast
qed

text \<open>An environment where every file opens to the scene \<open>arrayStage\<close>.\<close>
definition sceneEnv :: env where
  "sceneEnv = exampleEnv\<lparr>FindOrOpen := (\<lambda>f. True), OpenStage := (\<lambda>f ov. Some arrayStage)\<rparr>"

theorem setters_clear_nodes_witness:
  "SetFrame (Binary 2 0) readReader
     = (UsdArnoldReader exampleTime)
         \<lparr>time := exampleTime\<lparr>frame := Binary 2 0\<rparr>, readStep := READ_FINISHED,
          ai := [AiNode 1 ''standard_surface'' ''_default_arnold_shader'' None,
                 AiNode 2 ''user_data_rgb'' ''_default_arnold_shader_color'' None,
                 AiNodeDestroy 1, AiNodeDestroy 2]\<rparr>
   \<and> ai (SetDebug True (readReader\<lparr>procParent := Some 9\<rparr>)) = ai readReader
   \<and> nodes (SetDebug True (readReader\<lparr>procParent := Some 9\<rparr>)) = []
   \<and> readsStage sceneEnv ''scene.usd'' [] (SetFrame (Binary 2 0) readReader)
   \<and> nodes (Read sceneEnv ''scene.usd'' None [] (SetFrame (Binary 2 0) readReader)) = [3, 4, 5]"
proof -
  have opens: "FindOrOpen sceneEnv ''scene.usd''"
    by (simp add: sceneEnv_def)
  have again: "nodes (Read sceneEnv ''scene.usd'' None [] (SetFrame (Binary 2 0) readReader)) = [3, 4, 5]"
    by code_simp
  note first = setters_clear_nodes [where f = "Binary 2 0" and r = readReader and mb = False
      and mStart = "Binary 0 0" and mEnd = "Binary 0 0" and b = True and e = sceneEnv and fname = "''scene.usd''"
      and pth = "[]"]
  note second = setters_clear_nodes [where f = "Binary 2 0" and r = "readReader\<lparr>procParent := Some 9\<rparr>"
      and mb = False and mStart = "Binary 0 0" and mEnd = "Binary 0 0" and b = True and e = sceneEnv
      and fname = "''scene.usd''" and pth = "[]"]
  have a: "SetFrame (Binary 2 0) readReader = (ClearNodes readReader)\<lparr>time := (time readReader)\<lparr>frame := Binary 2 0\<rparr>\<rparr>"
    and b: "readsStage sceneEnv ''scene.usd'' [] (SetFrame (Binary 2 0) readReader)"
    using first opens by blast+
  have c: "SetDebug True (readReader\<lparr>procParent := Some 9\<rparr>)
             = (ClearNodes (readReader\<lparr>procParent := Some 9\<rparr>))\<lparr>debug := True\<rparr>"
    and d: "ai (ClearNodes (readReader\<lparr>procParent := Some 9\<rparr>))
             = ai (readReader\<lparr>procParent := Some 9\<rparr>)
               @ (if procParent (readReader\<lparr>procParent := Some 9\<rparr>) = None
                  then map AiNodeDestroy (nodes (readReader\<lparr>procParent := Some 9\<rparr>)) else [])"
    and e: "nodes (ClearNodes (readReader\<lparr>procParent := Some 9\<rparr>)) = []"
    using second by blast+
  show ?thesis
    using a b c d e again
    by (simp add: readReader_def UsdArnoldReader_def ClearNodes_def)
qed

section \<open>Array connections in the strict step\<close>

lemma isDestroyed_append: "isDestroyed (xs @ ys) n = (isDestroyed xs n \<or> isDestroyed ys n)"
  by (induction xs) auto

lemma AiNodeLookUpByName_snoc:
  "\<not> nodeCall c \<Longrightarrow> AiNodeLookUpByName (calls @ [c]) name = AiNodeLookUpByName calls name"
  by (cases c) (auto simp: AiNodeLookUpByName_def isDestroyed_append)

lemma AiNodeGetParent_snoc:
  "\<not> nodeCall c \<Longrightarrow> AiNodeGetParent (calls @ [c]) n = AiNodeGetParent calls n"
  by (cases c) (auto simp: AiNodeGetParent_def)

lemma LookupNode_logCall:
  "\<not> nodeCall c \<Longrightarrow> LookupNode (logCall c r) name b = LookupNode r name b"
  by (auto simp: LookupNode_def logCall_def AiNodeLookUpByName_snoc AiNodeGetParent_snoc
        split: option.splits)

lemma readStep_logCall: "readStep (logCall c r) = readStep r"
  by (simp add: logCall_def)

lemma LookupNode_applyConnection:
  "LookupNode (applyConnection c t r) name b = LookupNode r name b"
  by (simp add: applyConnection_def Let_def LookupNode_logCall)

lemma readStep_applyConnection: "readStep (applyConnection c t r) = readStep r"
  by (simp add: applyConnection_def Let_def readStep_logCall)

lemma resolveArray_strict:
  assumes "step \<noteq> READ_DANGLING_CONNECTIONS"
  shows "resolveArray e step tokens vecNodes s =
           (if list_all (\<lambda>name. LookupNode (snd s) name True \<noteq> None) tokens
            then Some (vecNodes @ map (\<lambda>name. the (LookupNode (snd s) name True)) tokens)
            else None, s)"
  using assms by (induction tokens arbitrary: vecNodes) (auto split: option.splits)

lemma ProcessConnection_strict:
  assumes "readStep r \<noteq> READ_DANGLING_CONNECTIONS"
  shows "\<exists>r'. ProcessConnection e c (tc, r) = (resolves r c, (tc, r'))
              \<and> (\<not> resolves r c \<longrightarrow> r' = r)
              \<and> readStep r' = readStep r
              \<and> (\<forall>name b. LookupNode r' name b = LookupNode r name b)"
proof (cases "ctype c = CONNECTION_ARRAY")
  case True
  then show ?thesis
    using assms
    by (simp add: ProcessConnection_def resolveArray_strict resolves_def Let_def
          LookupNode_logCall readStep_logCall)
next
  case False
  then show ?thesis
    using assms
    by (auto simp: ProcessConnection_def resolves_def Let_def LookupNode_applyConnection
          readStep_applyConnection split: option.splits)
qed

lemma processLoop_strict:
  assumes "readStep r \<noteq> READ_DANGLING_CONNECTIONS"
  shows "fst (processLoop e cs dangling (tc, r)) = dangling @ filter (\<lambda>c. \<not> resolves r c) cs"
  using assms
proof (induction cs arbitrary: dangling r)
  case Nil
  then show ?case by simp
next
  case (Cons c cs)
  from ProcessConnection_strict [OF Cons.prems, of e c tc]
  obtain r' where pc: "ProcessConnection e c (tc, r) = (resolves r c, (tc, r'))"
    and step: "readStep r' = readStep r"
    and look: "\<forall>name b. LookupNode r' name b = LookupNode r name b"
    by blast
  have same: "resolves r' x = resolves r x" for x
    using look by (simp add: resolves_def)
  show ?case
    using Cons.IH [of r'] Cons.prems step pc by (simp add: same)
qed

text \<open>
  C2. In the step \<open>READ_PROCESS_CONNECTIONS\<close> an array connection resolves only when
  every name of its target list is found: then the source attribute is set to the array
  of all the nodes. When a name is missing nothing at all is changed, and the connection
  stays in the connections of its context, which \<open>ReadStage\<close> collects as dangling.
  The names are the tokens \<open>std::getline\<close> cuts at single spaces.
\<close>
theorem strict_array_all_or_nothing:
  assumes "readStep r = READ_PROCESS_CONNECTIONS" and "ctype c = CONNECTION_ARRAY"
  shows "(if \<forall>name \<in> set (getlineTokens (target c)). LookupNode r name True \<noteq> None
          then ProcessConnection e c (tc, r) =
                 (True, (tc, logCall (AiNodeSetArray (sourceNode c) (sourceAttr c)
                    (NodeArray (map (\<lambda>name. the (LookupNode r name True))
                                  (getlineTokens (target c))))) r))
          else ProcessConnection e c (tc, r) = (False, (tc, r))
               \<and> (c \<in> set (connections tc)
                    \<longrightarrow> c \<in> set (connections (fst (ProcessConnections e (tc, r))))))"
proof -
  have strict: "readStep r \<noteq> READ_DANGLING_CONNECTIONS"
    using assms(1) by simp
  have loop: "connections (fst (ProcessConnections e (tc, r)))
                = filter (\<lambda>c. \<not> resolves r c) (connections tc)"
    using processLoop_strict [OF strict, of e "connections tc" "[]" "tc\<lparr>primvarsStack := [[]]\<rparr>"]
    by (auto simp: ProcessConnections_def split: prod.splits)
  show ?thesis
    using assms strict
    by (auto simp: loop resolves_def list_all_iff ProcessConnection_def resolveArray_strict)
qed

theorem strict_array_all_or_nothing_witness:
  "ProcessConnection exampleEnv (arrayConnection 3 ''/tex /missing'')
       (UsdArnoldReaderThreadContext\<lparr>connections := [arrayConnection 3 ''/tex /missing'']\<rparr>, linkReader)
     = (False, (UsdArnoldReaderThreadContext\<lparr>connections := [arrayConnection 3 ''/tex /missing'']\<rparr>, linkReader))
   \<and> arrayConnection 3 ''/tex /missing''
       \<in> set (connections (fst (ProcessConnections exampleEnv
            (UsdArnoldReaderThreadContext\<lparr>connections := [arrayConnection 3 ''/tex /missing'']\<rparr>, linkReader))))
   \<and> ProcessConnection exampleEnv (arrayConnection 3 ''/tex /tex'') (UsdArnoldReaderThreadContext, linkReader)
     = (True, (UsdArnoldReaderThreadContext,
               logCall (AiNodeSetArray 3 ''shader'' (NodeArray [7, 7])) linkReader))"
proof -
  have tok: "getlineTokens ''/tex /missing'' = [''/tex'', ''/missing'']"
    "getlineTokens ''/tex /tex'' = [''/tex'', ''/tex'']"
    by code_simp+
  have look: "LookupNode linkReader ''/tex'' True = Some 7"
    "LookupNode linkReader ''/missing'' True = None"
    by code_simp+
  show ?thesis
    using strict_array_all_or_nothing [of linkReader "arrayConnection 3 ''/tex /missing''" exampleEnv
        "UsdArnoldReaderThreadContext\<lparr>connections := [arrayConnection 3 ''/tex /missing'']\<rparr>"]
      strict_array_all_or_nothing [of linkReader "arrayConnection 3 ''/tex /tex''" exampleEnv
        UsdArnoldReaderThreadContext]
    by (simp add: arrayConnection_def tok look) (simp add: linkReader_def)
qed


section \<open>Array connections in the dangling step\<close>

text \<open>
  C1, as the code has it. For a target list \<open>a b c\<close> in the dangling step, where \<open>a\<close>
  is missing but its prim can be read, \<open>b\<close> exists, and \<open>c\<close> neither exists nor has a
  prim: \<open>a\<close> is materialized, the resolution stops at \<open>c\<close> and returns false, and the
  state is exactly the one the reading of the prim of \<open>a\<close> left, begun with the inherited
  primvars of \<open>a\<close> written over the top of the primvars stack. The resolution makes no
  call of its own: the array of the two found nodes is not applied.
\<close>
theorem dangling_array_missing_member_drops:
  assumes "readStep r = READ_DANGLING_CONNECTIONS" and "ctype c = CONNECTION_ARRAY"
    and "getlineTokens (target c) = [a, b, missing]"
    and "LookupNode r a True = None" and "primAt r a = Some pa"
    and "s1 = ReadPrimitiveBody e pa newContext
                (tc\<lparr>primvarsStack := setBack (primvarsStack tc) (primvarsWithInheritance (info pa))\<rparr>, r)"
    and "LookupNode (snd s1) a True = Some na"
    and "LookupNode (snd s1) b True = Some nb"
    and "LookupNode (snd s1) missing True = None" and "primAt (snd s1) missing = None"
    and "LookupNode r (target c) True = None" and "primAt r (target c) = None"
  shows "ProcessConnection e c (tc, r) = (False, s1) \<and> danglingConnection e c (tc, r) = s1"
proof -
  have m1: "materialize e a (tc, r) = (Some na, s1)"
    using assms(5,6,7) by (simp add: materialize_def newContext_def Let_def)
  have m2: "materialize e missing s1 = (None, s1)"
    using assms(10) by (cases s1) (simp add: materialize_def)
  have "resolveArray e READ_DANGLING_CONNECTIONS [a, b, missing] [] (tc, r) = (None, s1)"
    using assms(4,8,9) m1 m2 by simp
  then have pc: "ProcessConnection e c (tc, r) = (False, s1)"
    using assms(1,2,3) by (simp add: ProcessConnection_def)
  then show ?thesis
    using assms(11,12) by (simp add: danglingConnection_def)
qed

lemma tokens_abc: "getlineTokens ''/a /b /c'' = [''/a'', ''/b'', ''/c'']"
  by code_simp

theorem dangling_array_missing_member_drops_witness:
  "ProcessConnection exampleEnv (arrayConnection 1 ''/a /b /c'') (danglingContext, danglingReader)
     = (False, (danglingContext\<lparr>tc_nodes := [3], tc_nodeNames := [(''/a'', 3)]\<rparr>,
                logCall (AiNode 3 ''standard_surface'' ''/a'' None) danglingReader))
   \<and> danglingConnection exampleEnv (arrayConnection 1 ''/a /b /c'') (danglingContext, danglingReader)
     = (danglingContext\<lparr>tc_nodes := [3], tc_nodeNames := [(''/a'', 3)]\<rparr>,
        logCall (AiNode 3 ''standard_surface'' ''/a'' None) danglingReader)"
proof -
  define s1 where "s1 = (danglingContext\<lparr>tc_nodes := [3], tc_nodeNames := [(''/a'', 3)]\<rparr>,
        logCall (AiNode 3 ''standard_surface'' ''/a'' None) danglingReader)"
  define pa where "pa = Prim ((examplePrim ''/a'' ''ArnoldStandardSurface'')\<lparr>visibilityAttr := Some ''invisible''\<rparr>) []"
  have h1: "readStep danglingReader = READ_DANGLING_CONNECTIONS"
    by (simp add: danglingReader_def)
  have h2: "ctype (arrayConnection 1 ''/a /b /c'') = CONNECTION_ARRAY"
    by (simp add: arrayConnection_def)
  have h3: "getlineTokens (target (arrayConnection 1 ''/a /b /c'')) = [''/a'', ''/b'', ''/c'']"
    by (simp add: arrayConnection_def tokens_abc)
  have h4: "LookupNode danglingReader ''/a'' True = None"
    by code_simp
  have h5: "primAt danglingReader ''/a'' = Some pa"
    unfolding pa_def by code_simp
  have h6: "s1 = ReadPrimitiveBody exampleEnv pa newContext
                (danglingContext\<lparr>primvarsStack := setBack (primvarsStack danglingContext) (primvarsWithInheritance (info pa))\<rparr>, danglingReader)"
    unfolding pa_def s1_def by code_simp
  have h7: "LookupNode (snd s1) ''/a'' True = Some 3"
    unfolding s1_def by code_simp
  have h8: "LookupNode (snd s1) ''/b'' True = Some 2"
    unfolding s1_def by code_simp
  have h9: "LookupNode (snd s1) ''/c'' True = None" "primAt (snd s1) ''/c'' = None"
    unfolding s1_def by code_simp+
  have h11: "LookupNode danglingReader (target (arrayConnection 1 ''/a /b /c'')) True = None"
    "primAt danglingReader (target (arrayConnection 1 ''/a /b /c'')) = None"
    by code_simp+
  show ?thesis
    using dangling_array_missing_member_drops [OF h1 h2 h3 h4 h5 h6 h7 h8 h9 h11]
    by (simp add: s1_def)
qed

text \<open>
  C1, as stated, fails: reading the scene \<open>arrayStage\<close> from start to end creates the
  nodes of \<open>/m\<close>, \<open>/b\<close> and, in the dangling step, \<open>/a\<close>, and never sets the shader
  array of the mesh.
\<close>
theorem array_with_missing_member_sets_nothing:
  "ai (ReadStage exampleEnv (Some arrayStage) [] (UsdArnoldReader exampleTime))
     = [AiCritSecEnter GlobalReaderMutex, AiCritSecLeave GlobalReaderMutex,
        AiNode 1 ''polymesh'' ''/m'' None,
        AiNode 2 ''standard_surface'' ''/b'' None,
        AiNode 3 ''standard_surface'' ''/a'' None]
   \<and> AiNodeSetArray 1 ''shader'' (NodeArray [3, 2])
       \<notin> set (ai (ReadStage exampleEnv (Some arrayStage) [] (UsdArnoldReader exampleTime)))"
  by code_simp


section \<open>The read step\<close>

text \<open>
  Nothing but \<open>setReadStep\<close> changes the read step: every operation of the three steps
  leaves the step and the list of its assignments as they were.
\<close>
lemma steps_logCall: "steps (logCall c r) = steps r"
  by (simp add: steps_def logCall_def)

lemma steps_CreateArnoldNode:
  "steps (snd (snd (CreateArnoldNode e ty nm s))) = steps (snd s)"
  by (cases s) (simp add: CreateArnoldNode_def Let_def steps_logCall)

lemma steps_runPrimReader:
  "steps (snd (runPrimReader f p ctx s)) = steps (snd s)"
  by (cases s) (simp add: runPrimReader_def steps_def split: prod.splits)

lemma steps_ReadPrimitiveBody:
  "steps (snd (ReadPrimitiveBody e p ctx s)) = steps (snd s)"
  by (cases s)
     (simp add: ReadPrimitiveBody_def Let_def steps_logCall steps_runPrimReader
        split: option.splits prod.splits)

lemma steps_materialize:
  "steps (snd (snd (materialize e name s))) = steps (snd s)"
  by (cases s) (simp add: materialize_def Let_def steps_ReadPrimitiveBody split: option.splits)

lemma steps_resolveArray:
  "steps (snd (snd (resolveArray e step tokens vecNodes s))) = steps (snd s)"
proof (induction tokens arbitrary: vecNodes s)
  case Nil
  then show ?case by simp
next
  case (Cons token tokens)
  show ?case
  proof (cases "LookupNode (snd s) token True")
    case (Some t)
    then show ?thesis using Cons.IH by simp
  next
    case None
    show ?thesis
    proof (cases "step = READ_DANGLING_CONNECTIONS")
      case True
      obtain t1 s1 where m: "materialize e token s = (t1, s1)" by (cases "materialize e token s")
      have "steps (snd s1) = steps (snd s)"
        using steps_materialize [of e token s] m by simp
      then show ?thesis
        using None True m Cons.IH [of _ s1] by (cases t1) simp_all
    next
      case False
      then show ?thesis using None by simp
    qed
  qed
qed

lemma steps_applyConnection: "steps (applyConnection c t r) = steps r"
  by (simp add: applyConnection_def Let_def steps_logCall)

lemma steps_createPrototypeProcedural:
  "steps (snd (snd (createPrototypeProcedural e c s))) = steps (snd s)"
proof -
  obtain t tc1 r1 where cr: "CreateArnoldNode e ''usd'' (target c) s = (t, (tc1, r1))"
    by (metis prod_cases3)
  have "steps r1 = steps (snd s)"
    using steps_CreateArnoldNode [of e "''usd''" "target c" s] cr by simp
  then show ?thesis
    by (simp add: createPrototypeProcedural_def cr Let_def steps_logCall split: option.splits)
qed

lemma steps_ProcessConnection:
  "steps (snd (snd (ProcessConnection e c s))) = steps (snd s)"
proof -
  obtain tc r where s: "s = (tc, r)" by (cases s)
  show ?thesis
  proof (cases "ctype c = CONNECTION_ARRAY")
    case True
    obtain res s1 where ra: "resolveArray e (readStep r) (getlineTokens (target c)) [] s = (res, s1)"
      by (cases "resolveArray e (readStep r) (getlineTokens (target c)) [] s")
    have "steps (snd s1) = steps r"
      using steps_resolveArray [of e "readStep r" "getlineTokens (target c)" "[]" s] ra s by simp
    then show ?thesis
      using True ra s by (cases res; cases s1) (simp_all add: ProcessConnection_def steps_logCall)
  next
    case False
    obtain t1 s1 where m: "materialize e (target c) s = (t1, s1)"
      by (cases "materialize e (target c) s")
    have s1: "steps (snd s1) = steps r"
      using steps_materialize [of e "target c" s] m s by simp
    obtain t2 s2 where cp: "createPrototypeProcedural e c s1 = (t2, s2)"
      by (cases "createPrototypeProcedural e c s1")
    have s2: "steps (snd s2) = steps r"
      using steps_createPrototypeProcedural [of e c s1] cp s1 by simp
    show ?thesis
      using False m cp s1 s2 s
      by (cases s1; cases s2)
         (auto simp: ProcessConnection_def Let_def steps_applyConnection split: option.splits)
  qed
qed

lemma steps_AddConnection:
  "steps (snd (AddConnection e src attr tgt ty oe s)) = steps (snd s)"
  by (cases s) (simp add: AddConnection_def Let_def steps_logCall steps_ProcessConnection)

lemma steps_ReadMatrix: "steps (ReadMatrix e p n t ctx isXf r) = steps r"
  by (simp add: ReadMatrix_def Let_def steps_logCall)

lemma steps_ReadPrimitive:
  "steps (snd (ReadPrimitive e p ctx isInstance s)) = steps (snd s)"
proof -
  obtain g tc1 r1 where cr: "CreateArnoldNode e ''ginstance'' (path (info p)) s = (g, (tc1, r1))"
    by (metis prod_cases3)
  have "steps r1 = steps (snd s)"
    using steps_CreateArnoldNode [of e "''ginstance''" "path (info p)" s] cr by simp
  then show ?thesis
    by (simp add: ReadPrimitive_def cr Let_def steps_logCall steps_ReadMatrix steps_AddConnection
          steps_ReadPrimitiveBody split: option.splits)
qed

lemma steps_readerLoop:
  "steps (snd (readerLoop e threadId nThreads ctx iter index s)) = steps (snd s)"
proof (induction e threadId nThreads ctx iter index s rule: readerLoop.induct)
  case (1 e threadId nThreads ctx iter index s)
  show ?case
  proof (cases iter)
    case Nil
    then show ?thesis by (simp add: readerLoop.simps)
  next
    case (Cons v rest)
    obtain p isPostVisit where v: "v = (p, isPostVisit)" by (cases v)
    obtain tc r where s: "s = (tc, r)" by (cases s)
    note IH = "1.IH" [OF Cons v [symmetric] s [symmetric]]
    show ?thesis
      using IH Cons v s
      by (subst readerLoop.simps) (simp add: Let_def steps_ReadPrimitive)
  qed
qed


lemma steps_ReaderThread:
  "steps (snd (ReaderThread e threadId nThreads rootPrim ctx s)) = steps (snd s)"
  by (cases s) (simp add: ReaderThread_def Let_def steps_readerLoop split: option.splits)

lemma steps_traverseThread:
  "steps (snd (traverseThread e rootPrim nThreads i acc)) = steps (snd acc)"
proof -
  obtain threadData r where acc: "acc = (threadData, r)" by (cases acc)
  show ?thesis
    using steps_ReaderThread [of e i nThreads rootPrim newContext "(threadContextFor r, r)"]
    by (auto simp: traverseThread_def acc split: prod.splits)
qed

lemma steps_fold:
  assumes "\<And>x acc. steps (snd (f x acc)) = steps (snd acc)"
  shows "steps (snd (fold f xs acc)) = steps (snd acc)"
  using assms by (induction xs arbitrary: acc) simp_all

lemma steps_mergeNodes: "steps (snd (mergeNodes s)) = steps (snd s)"
  by (cases s) (simp add: mergeNodes_def steps_def)

lemma steps_mergeThread: "steps (snd (mergeThread tc acc)) = steps (snd acc)"
proof -
  obtain threadData r where acc: "acc = (threadData, r)" by (cases acc)
  show ?thesis
    using steps_mergeNodes [of "(tc, r)"]
    by (auto simp: mergeThread_def acc split: prod.splits)
qed

lemma steps_processLoop:
  "steps (snd (snd (processLoop e cs dangling s))) = steps (snd s)"
proof (induction cs arbitrary: dangling s)
  case Nil
  then show ?case by simp
next
  case (Cons c cs)
  obtain ok s1 where pc: "ProcessConnection e c s = (ok, s1)"
    by (cases "ProcessConnection e c s")
  have "steps (snd s1) = steps (snd s)"
    using steps_ProcessConnection [of e c s] pc by simp
  then show ?case
    using Cons.IH [of _ s1] pc by simp
qed

lemma steps_ProcessConnections: "steps (snd (ProcessConnections e s)) = steps (snd s)"
proof -
  obtain tc r where s: "s = (tc, r)" by (cases s)
  show ?thesis
    using steps_processLoop [of e "connections tc" "[]" "(tc\<lparr>primvarsStack := [[]]\<rparr>, r)"]
    by (auto simp: ProcessConnections_def s steps_def split: prod.splits)
qed

lemma steps_processThread: "steps (snd (processThread e tc acc)) = steps (snd acc)"
proof -
  obtain threadData r where acc: "acc = (threadData, r)" by (cases acc)
  show ?thesis
    using steps_ProcessConnections [of e "(tc, r)"]
    by (auto simp: processThread_def acc split: prod.splits)
qed

lemma steps_danglingConnection: "steps (snd (danglingConnection e conn s)) = steps (snd s)"
proof -
  obtain tc r where s: "s = (tc, r)" by (cases s)
  show ?thesis
    by (simp add: danglingConnection_def s Let_def steps_ProcessConnection steps_ReadPrimitive
          split: option.splits)
qed

lemma steps_danglingPass: "steps (snd (danglingPass e cs acc)) = steps (snd acc)"
proof -
  obtain threadData r where acc: "acc = (threadData, r)" by (cases acc)
  have "steps (snd (mergeNodes (fold (danglingConnection e) cs (tc0, r)))) = steps r"
    for tc0
    using steps_fold [of "danglingConnection e" cs "(tc0, r)"]
    by (simp add: steps_mergeNodes steps_danglingConnection)
  note h = this
  show ?thesis
  proof (cases threadData)
    case Nil
    then show ?thesis by (simp add: danglingPass_def acc)
  next
    case (Cons tc0 others)
    obtain tc1 r1 where mg: "mergeNodes (fold (danglingConnection e) cs (tc0, r)) = (tc1, r1)"
      by (metis surj_pair)
    have "steps r1 = steps r"
      using h [of tc0] mg by simp
    then show ?thesis
      by (simp add: danglingPass_def acc Cons mg)
  qed
qed

lemma steps_readShutter: "steps (readShutter st r) = steps r"
  by (simp add: readShutter_def steps_def Let_def split: option.splits)

lemma steps_readSteps:
  "steps (readSteps e rootPrim r)
     = (READ_FINISHED,
        stepLog r @ [READ_TRAVERSE, READ_PROCESS_CONNECTIONS, READ_DANGLING_CONNECTIONS,
                     READ_FINISHED])"
proof -
  define nThreads where "nThreads = (if threadCount r = 0 then 1 else threadCount r)"
  define r2 where "r2 = traverseStart r"
  obtain threadData1 r3 where
    t: "fold (traverseThread e rootPrim nThreads) [0..<nThreads] ([], r2) = (threadData1, r3)"
    by (metis surj_pair)
  obtain threadData2 r4 where m: "fold mergeThread threadData1 ([], r3) = (threadData2, r4)"
    by (metis surj_pair)
  define r6 where
    "r6 = setReadStep READ_PROCESS_CONNECTIONS (if dispatcher r4 then r4\<lparr>dispatcher := False\<rparr> else r4)"
  obtain threadData3 r7 where p: "fold (processThread e) threadData2 ([], r6) = (threadData3, r7)"
    by (metis surj_pair)
  define r8 where "r8 = setReadStep READ_DANGLING_CONNECTIONS r7"
  obtain threadData5 r9 where
    d: "danglingPass e (concat (map connections threadData3))
          (map (\<lambda>tc. tc\<lparr>connections := []\<rparr>) threadData3, r8) = (threadData5, r9)"
    by (metis surj_pair)
  have s2: "steps r2 = (READ_TRAVERSE, stepLog r @ [READ_TRAVERSE])"
    by (simp add: r2_def traverseStart_def setReadStep_def startDispatcher_def steps_def)
  have s3: "steps r3 = steps r2"
    using steps_fold [of "traverseThread e rootPrim nThreads" "[0..<nThreads]" "([], r2)"] t
    by (simp add: steps_traverseThread)
  have s4: "steps r4 = steps r3"
    using steps_fold [of mergeThread threadData1 "([], r3)"] m
    by (simp add: steps_mergeThread)
  have s6: "steps r6 = (READ_PROCESS_CONNECTIONS,
                        stepLog r @ [READ_TRAVERSE, READ_PROCESS_CONNECTIONS])"
    using s2 s3 s4 by (simp add: r6_def setReadStep_def steps_def)
  have s7: "steps r7 = steps r6"
    using steps_fold [of "processThread e" threadData2 "([], r6)"] p
    by (simp add: steps_processThread)
  have s8: "steps r8 = (READ_DANGLING_CONNECTIONS,
              stepLog r @ [READ_TRAVERSE, READ_PROCESS_CONNECTIONS, READ_DANGLING_CONNECTIONS])"
    using s6 s7 by (simp add: r8_def setReadStep_def steps_def)
  have s9: "steps r9 = steps r8"
    using steps_danglingPass [of e "concat (map connections threadData3)"
            "(map (\<lambda>tc. tc\<lparr>connections := []\<rparr>) threadData3, r8)"] d
    by simp
  have "readSteps e rootPrim r = setReadStep READ_FINISHED (r9\<lparr>rstage := None\<rparr>)"
    using t m p d
    by (simp add: readSteps_def Let_def nThreads_def [symmetric] r2_def [symmetric]
          r6_def [symmetric] r8_def [symmetric])
  then show ?thesis
    using s8 s9 by (simp add: setReadStep_def steps_def)
qed

lemma ReadStage_steps:
  "steps (ReadStage e stg pth r) = steps r
   \<or> steps (ReadStage e stg pth r)
        = (READ_FINISHED,
           stepLog r @ [READ_TRAVERSE, READ_PROCESS_CONNECTIONS, READ_DANGLING_CONNECTIONS,
                        READ_FINISHED])"
proof -
  have pre: "steps (readSteps e rootPrim (readShutter st r3))
               = (READ_FINISHED,
                  stepLog r @ [READ_TRAVERSE, READ_PROCESS_CONNECTIONS,
                               READ_DANGLING_CONNECTIONS, READ_FINISHED])"
    if "steps r3 = steps r" for rootPrim st r3
    using steps_readSteps [of e rootPrim "readShutter st r3"] steps_readShutter [of st r3] that
    by (simp add: steps_def)
  show ?thesis
  proof (cases stg)
    case None
    then show ?thesis by (simp add: ReadStage_def Let_def steps_def logCall_def)
  next
    case (Some st)
    have r3: "steps (prepareStage (r\<lparr>rstage := stg\<rparr>)) = steps r"
      by (simp add: prepareStage_def Let_def steps_def logCall_def)
    show ?thesis
      using pre [OF r3] r3
      by (auto simp: ReadStage_def Some Let_def steps_logCall split: option.splits)
  qed
qed

text \<open>
  C4. Whatever the stage, the path and the reader, \<open>ReadStage\<close> assigns the read step
  either not at all (the stage or the object path is refused) or to \<open>READ_TRAVERSE\<close>,
  \<open>READ_PROCESS_CONNECTIONS\<close>, \<open>READ_DANGLING_CONNECTIONS\<close> and \<open>READ_FINISHED\<close> in
  this order: each assignment is to a strictly later value than the one before, the step
  at the end is the last value assigned, and from \<open>READ_NOT_STARTED\<close> the whole sequence
  advances.
\<close>
theorem ReadStage_step_advances:
  "stepLog (ReadStage e stg pth r) = stepLog r @ assigned r (ReadStage e stg pth r)
   \<and> advancing (assigned r (ReadStage e stg pth r))
   \<and> readStep (ReadStage e stg pth r) = last (readStep r # assigned r (ReadStage e stg pth r))
   \<and> (readStep r = READ_NOT_STARTED
        \<longrightarrow> advancing (readStep r # assigned r (ReadStage e stg pth r)))"
  using ReadStage_steps [of e stg pth r]
  by (auto simp: steps_def assigned_def advancing_def)

theorem ReadStage_step_advances_witness:
  "assigned (UsdArnoldReader exampleTime)
       (ReadStage exampleEnv (Some arrayStage) [] (UsdArnoldReader exampleTime))
     = [READ_TRAVERSE, READ_PROCESS_CONNECTIONS, READ_DANGLING_CONNECTIONS, READ_FINISHED]
   \<and> advancing (READ_NOT_STARTED # assigned (UsdArnoldReader exampleTime)
       (ReadStage exampleEnv (Some arrayStage) [] (UsdArnoldReader exampleTime)))
   \<and> readStep (ReadStage exampleEnv (Some arrayStage) [] (UsdArnoldReader exampleTime))
     = READ_FINISHED"
proof -
  have log: "stepLog (ReadStage exampleEnv (Some arrayStage) [] (UsdArnoldReader exampleTime))
               = [READ_TRAVERSE, READ_PROCESS_CONNECTIONS, READ_DANGLING_CONNECTIONS,
                  READ_FINISHED]"
    by code_simp
  have start: "readStep (UsdArnoldReader exampleTime) = READ_NOT_STARTED"
    "stepLog (UsdArnoldReader exampleTime) = []"
    by (simp_all add: UsdArnoldReader_def)
  show ?thesis
    using ReadStage_step_advances [of exampleEnv "Some arrayStage" "[]"
        "UsdArnoldReader exampleTime"]
    by (simp add: log start assigned_def)
qed


section \<open>The primvars stack\<close>

text \<open>
  For every prim that the traversal prunes, the loop goes on after the post-visit of the
  prim with the entry pushed for it still on the stack.
\<close>
lemma pruned_visit_skips_pop:
  assumes "typeName (info p) \<noteq> [] \<or> instanceable (info p)"
    and "isImageable (info p) \<or> take 6 (typeName (info p)) = ''Arnold''"
    and "pruneChildren r (info p)"
  shows "readerLoop e threadId nThreads ctx (preAndPost p @ rest) index (tc, r)
           = readerLoop e threadId nThreads ctx rest index (pushPrimvars (info p) tc, r)"
proof (cases p)
  case (Prim i cs)
  have it: "preAndPost p @ rest = (p, False) # concat (map preAndPost cs) @ (p, True) # rest"
    by (simp add: Prim)
  have skip: "increment False (increment True (preAndPost p @ rest)) = rest"
    by (simp add: it increment_def Prim)
  show ?thesis
    using assms
    by (subst readerLoop.simps) (auto simp: it skip [unfolded it] Let_def)
qed

text \<open>
  C3 fails on the code. In the scene \<open>siblingStage\<close> with \<open>/hidden\<close> invisible, the entry
  pushed for \<open>/hidden\<close> is never popped: the pruning branch skips the post-visit, the
  sphere \<open>/ball\<close> is read with the primvar \<open>displayColor\<close> of its pruned sibling, and the
  stack ends two entries deep. With \<open>/hidden\<close> visible the same traversal ends with the
  one initial entry and \<open>/ball\<close> sees no primvar.
\<close>
theorem pruned_prim_leaves_its_primvars:
  "primvarsStack (fst (ReaderThread exampleEnv 0 1 None newContext
       (threadContextFor (traversingReader (siblingStage (Some ''invisible''))),
        traversingReader (siblingStage (Some ''invisible'')))))
     = [[], [(''displayColor'', ''/hidden'')]]
   \<and> ai (snd (ReaderThread exampleEnv 0 1 None newContext
       (threadContextFor (traversingReader (siblingStage (Some ''invisible''))),
        traversingReader (siblingStage (Some ''invisible'')))))
     = [AiNode 1 ''sphere'' ''/ball'' None,
        AiNodeSetStr 1 ''primvars:displayColor'' ''/hidden'']
   \<and> primvarsStack (fst (ReaderThread exampleEnv 0 1 None newContext
       (threadContextFor (traversingReader (siblingStage None)),
        traversingReader (siblingStage None))))
     = [[]]
   \<and> ai (snd (ReaderThread exampleEnv 0 1 None newContext
       (threadContextFor (traversingReader (siblingStage None)),
        traversingReader (siblingStage None))))
     = [AiNode 1 ''sphere'' ''/hidden/ball'' None,
        AiNodeSetStr 1 ''primvars:displayColor'' ''/hidden'',
        AiNode 2 ''sphere'' ''/ball'' None]"
  by code_simp


section \<open>The locks of a thread context\<close>

text \<open>
  C9, as the code has it. The three locks of a thread context are initialised by
  \<open>SetDispatcher\<close> when there is a dispatcher, and \<open>ReadStage\<close> creates the dispatcher
  for a thread count of zero only. So, for the context \<open>ReadStage\<close> sets up from a
  reader without a dispatcher, \<open>CreateArnoldNode\<close>, \<open>AddConnection\<close> (in the traversal)
  and \<open>AddNodeName\<close> enter their lock exactly when the thread count is zero; with one
  thread or several no lock of the context is entered.
\<close>
theorem context_locks_follow_dispatcher:
  assumes "\<not> dispatcher r"
  shows "locksTaken (traverseStart r)
           (snd (snd (CreateArnoldNode e ty name
              (threadContextFor (traverseStart r), traverseStart r))))
         = (if threadCount r = 0 then [CreateNodeLock] else [])
       \<and> locksTaken (traverseStart r)
           (snd (AddConnection e source attr tgt type outputElem
              (threadContextFor (traverseStart r), traverseStart r)))
         = (if threadCount r = 0 then [AddConnectionLock] else [])
       \<and> locksTaken (traverseStart r)
           (snd (AddNodeName name n (threadContextFor (traverseStart r), traverseStart r)))
         = (if threadCount r = 0 then [AddNodeNameLock] else [])"
  using assms
  by (simp add: locksTaken_def traverseStart_def startDispatcher_def threadContextFor_def
        SetDispatcher_def UsdArnoldReaderThreadContext_def setReadStep_def
        CreateArnoldNode_def AddConnection_def AddNodeName_def logCall_def Let_def)

theorem context_locks_follow_dispatcher_witness:
  "locksTaken (traverseStart (SetThreadCount 0 (UsdArnoldReader exampleTime)))
           (snd (snd (CreateArnoldNode baseEnv ''polymesh'' ''/m''
              (threadContextFor (traverseStart (SetThreadCount 0 (UsdArnoldReader exampleTime))),
               traverseStart (SetThreadCount 0 (UsdArnoldReader exampleTime))))))
     = [CreateNodeLock]
   \<and> locksTaken (traverseStart (UsdArnoldReader exampleTime))
           (snd (snd (CreateArnoldNode baseEnv ''polymesh'' ''/m''
              (threadContextFor (traverseStart (UsdArnoldReader exampleTime)),
               traverseStart (UsdArnoldReader exampleTime)))))
     = []"
  using context_locks_follow_dispatcher [of "SetThreadCount 0 (UsdArnoldReader exampleTime)" baseEnv
      "''polymesh''" "''/m''"]
    context_locks_follow_dispatcher [of "UsdArnoldReader exampleTime" baseEnv "''polymesh''" "''/m''"]
  by (simp add: SetThreadCount_def UsdArnoldReader_def)

text \<open>
  C9, as stated, fails: with a thread count of two, which is not one, the three
  operations enter no lock.
\<close>
theorem two_threads_take_no_context_lock:
  "threadCount (SetThreadCount 2 (UsdArnoldReader exampleTime)) = 2
   \<and> ai (snd (snd (CreateArnoldNode baseEnv ''polymesh'' ''/m''
        (threadContextFor (traverseStart (SetThreadCount 2 (UsdArnoldReader exampleTime))),
         traverseStart (SetThreadCount 2 (UsdArnoldReader exampleTime))))))
     = [AiNode 1 ''polymesh'' ''/m'' None]
   \<and> ai (snd (AddConnection baseEnv 1 ''shader'' ''/mat'' CONNECTION_PTR []
        (threadContextFor (traverseStart (SetThreadCount 2 (UsdArnoldReader exampleTime))),
         traverseStart (SetThreadCount 2 (UsdArnoldReader exampleTime)))))
     = []
   \<and> ai (snd (AddNodeName ''/m'' 1
        (threadContextFor (traverseStart (SetThreadCount 2 (UsdArnoldReader exampleTime))),
         traverseStart (SetThreadCount 2 (UsdArnoldReader exampleTime)))))
     = []"
  by code_simp

section \<open>Motion blur\<close>

text \<open>
  The calls of \<open>ReadMatrix\<close> on a node, and the number of keys of the array when the
  bounds \<open>time.start()\<close> and \<open>time.end()\<close> are the shutter at the frame: the samples
  inside plus two, as a \<open>uint8_t\<close>.
\<close>
lemma length_keyTimes: "length (keyTimes e timeVal timeStep n) = n"
  by (induction n arbitrary: timeVal) simp_all

lemma ReadMatrix_calls:
  "ai (ReadMatrix e p n t ctx isXf r)
     = ai r @ AiNodeSetArray n ''matrix''
                (MatrixArray (case matrix ctx of Some m \<Rightarrow> m
                              | None \<Rightarrow> ReadMatrixArray e r p t isXf))
              # (if 1 < length (case matrix ctx of Some m \<Rightarrow> m
                                | None \<Rightarrow> ReadMatrixArray e r p t isXf)
                 then [AiNodeSetFlt n ''motion_start'' (motionStart t),
                       AiNodeSetFlt n ''motion_end'' (motionEnd t)]
                 else [])"
  by (simp add: ReadMatrix_def Let_def logCall_def)

lemma key_count_modulo:
  assumes "motionBlur t" and "xformTimeVarying p"
    and "valueOf (timeStart e t) = valueOf (frame t) + valueOf (motionStart t)"
    and "valueOf (timeEnd e t) = valueOf (frame t) + valueOf (motionEnd t)"
  shows "length (ReadMatrixArray e r p t isXf) = (length (insideShutter t p) + 2) mod 256"
  using assms
  by (simp add: ReadMatrixArray_def insideShutter_def isLess_def Let_def length_keyTimes min_def)





text \<open>
  With 255 samples inside the shutter the key count 257 is narrowed to one key, and the
  motion range is not set.
\<close>
lemma key_count_wraps:
  "length (insideShutter shutterTime crowdedPrim) = 255
   \<and> length (ReadMatrixArray baseEnv (UsdArnoldReader shutterTime) crowdedPrim shutterTime True) = 1
   \<and> ai (ReadMatrix baseEnv crowdedPrim 1 shutterTime newContext True (UsdArnoldReader shutterTime))
      = [AiNodeSetArray 1 ''matrix''
           (MatrixArray (ReadMatrixArray baseEnv (UsdArnoldReader shutterTime) crowdedPrim
                           shutterTime True))]"
proof -
  have h: "motionBlur shutterTime" "xformTimeVarying crowdedPrim"
    "valueOf (timeStart baseEnv shutterTime)
       = valueOf (frame shutterTime) + valueOf (motionStart shutterTime)"
    "valueOf (timeEnd baseEnv shutterTime)
       = valueOf (frame shutterTime) + valueOf (motionEnd shutterTime)"
    by (simp_all add: shutterTime_def crowdedPrim_def baseEnv_def tenthFloat_def)
  have inside: "length (insideShutter shutterTime crowdedPrim) = 255"
    by code_simp
  have one: "length (ReadMatrixArray baseEnv (UsdArnoldReader shutterTime) crowdedPrim
                       shutterTime True) = 1"
    using key_count_modulo [OF h, of "UsdArnoldReader shutterTime" True] inside by simp
  have empty: "ai (UsdArnoldReader shutterTime) = []"
    by (simp add: UsdArnoldReader_def)
  show ?thesis
    using ReadMatrix_calls [of baseEnv crowdedPrim 1 shutterTime newContext True
        "UsdArnoldReader shutterTime"]
    by (simp add: inside one empty newContext_def)
qed


end
